theory Spec2Isabelle
  imports Main
begin

section \<open>JavaScript values and the runtime platform\<close>

text \<open>
  The configuration holds untyped JavaScript values. Only the shapes that occur in
  the default table and in the menu code are modelled. \<open>truthy\<close> is JavaScript's
  conversion to boolean, as used by \<^verbatim>\<open>!x\<close>, \<^verbatim>\<open>!!x\<close>, \<^verbatim>\<open>x && y\<close> and by
  \<^verbatim>\<open>if (x)\<close>.
\<close>

datatype jsval =
    JUndefined
  | JBool bool
  | JNum int
  | JStr string
  | JArray "jsval list"

fun truthy :: "jsval \<Rightarrow> bool" where
  "truthy JUndefined = False"
| "truthy (JBool b) = b"
| "truthy (JNum n) = (n \<noteq> 0)"
| "truthy (JStr s) = (s \<noteq> [])"
| "truthy (JArray xs) = True"

text \<open>
  The platform is the string \<^verbatim>\<open>process.platform\<close>. The three tests are those of
  the \<^verbatim>\<open>electron-is\<close> package, which compares that string with \<^verbatim>\<open>win32\<close>,
  \<^verbatim>\<open>darwin\<close> and \<^verbatim>\<open>linux\<close>. Other platform strings (\<^verbatim>\<open>freebsd\<close>, ...) satisfy
  none of them.
\<close>

type_synonym platform = string

definition is_windows :: "platform \<Rightarrow> bool" where
  "is_windows p = (p = ''win32'')"

definition is_macOS :: "platform \<Rightarrow> bool" where
  "is_macOS p = (p = ''darwin'')"

definition is_linux :: "platform \<Rightarrow> bool" where
  "is_linux p = (p = ''linux'')"

section \<open>The default configuration table\<close>

text \<open>
  The \<^verbatim>\<open>plugins\<close> object of the default configuration, as an association list in
  declaration order. \<^verbatim>\<open>Object.keys\<close> lists string keys in insertion order (none
  of the keys is an array index, which JavaScript would list first).
\<close>

type_synonym plugin_table = "(string \<times> (string \<times> jsval) list) list"

definition defaultConfig_plugins :: plugin_table where
  "defaultConfig_plugins =
    [ (''navigation'', [(''enabled'', JBool True)]),
      (''shortcuts'', [(''enabled'', JBool True)]),
      (''adblocker'',
         [(''enabled'', JBool True), (''cache'', JBool True),
          (''additionalBlockLists'', JArray [])]),
      (''downloader'',
         [(''enabled'', JBool False), (''ffmpegArgs'', JArray []),
          (''downloadFolder'', JUndefined)]) ]"

text \<open>
  The \<^verbatim>\<open>options\<close> object of the default configuration, and the whole table as
  a list of dotted paths with the values at its leaves.
\<close>

definition defaultConfig_options :: "(string \<times> jsval) list" where
  "defaultConfig_options =
    [ (''tray'', JBool False),
      (''appVisible'', JBool True),
      (''autoUpdates'', JBool True),
      (''hideMenu'', JBool False),
      (''startAtLogin'', JBool False),
      (''disableHardwareAcceleration'', JBool False),
      (''restartOnConfigChanges'', JBool False),
      (''trayClickPlayPause'', JBool False),
      (''autoResetAppCache'', JBool False) ]"

definition defaultConfig_paths :: "(string \<times> jsval) list" where
  "defaultConfig_paths =
    [ (''window-size.width'', JNum 1100),
      (''window-size.height'', JNum 550),
      (''url'', JStr ''https://music.youtube.com'') ]
    @ map (\<lambda>(k, v). (''options.'' @ k, v)) defaultConfig_options
    @ concat (map (\<lambda>(plugin, opts). map (\<lambda>(k, v). (''plugins.'' @ plugin @ ''.'' @ k, v)) opts)
        defaultConfig_plugins)"

definition object_keys :: "(string \<times> 'v) list \<Rightarrow> string list" where
  "object_keys obj = map fst obj"

section \<open>Plugin utilities\<close>

subsection \<open>Available plugin names\<close>

text \<open>
  \<^verbatim>\<open>getAvailablePluginNames\<close>: the filter callback with its three branches in the
  order of the source, then the filter over the keys of the table. The platform
  and the table are ambient in the source and arguments here.
\<close>

definition plugin_name_kept :: "platform \<Rightarrow> string \<Rightarrow> bool" where
  "plugin_name_kept p name =
    (if is_windows p \<and> name = ''touchbar'' then False
     else if is_macOS p \<and> name = ''taskbar-mediacontrol'' then False
     else if is_linux p \<and> (name = ''taskbar-mediacontrol'' \<or> name = ''touchbar'') then False
     else True)"

definition getAvailablePluginNames :: "platform \<Rightarrow> plugin_table \<Rightarrow> string list" where
  "getAvailablePluginNames p plugins = filter (plugin_name_kept p) (object_keys plugins)"

subsection \<open>Existence check\<close>

text \<open>
  \<^verbatim>\<open>fileExists\<close> calls \<^verbatim>\<open>fs.access(path, F_OK, cb)\<close> and returns nothing.
  \<^verbatim>\<open>fs.access\<close> first validates its arguments: for a path that contains a NUL
  character it throws \<^verbatim>\<open>ERR_INVALID_ARG_VALUE\<close> synchronously, before any check is
  made, and the exception leaves \<^verbatim>\<open>fileExists\<close>, which has no handler for it.
  For a valid path the check is made and the completion handler is called with the
  error the check reports, if any; the file system is the function \<open>access\<close>
  giving that error.

  The result of the model is either the exception thrown, or the value returned
  (always \<^verbatim>\<open>undefined\<close>) together with the trace of the calls the completion
  handler makes to the two callback parameters. The error callback is optional in
  the source, so its presence is the flag \<open>hasCallbackIfError\<close>.
\<close>

datatype access_error = ENOENT | EACCES | EOtherAccess

datatype fs_exception = ERR_INVALID_ARG_VALUE

datatype file_exists_call = CallbackIfExists | CallbackIfError

definition path_is_valid :: "string \<Rightarrow> bool" where
  "path_is_valid path = (CHR 0x00 \<notin> set path)"

definition fileExists ::
  "(string \<Rightarrow> access_error option) \<Rightarrow> string \<Rightarrow> bool
     \<Rightarrow> fs_exception + jsval \<times> file_exists_call list" where
  "fileExists access path hasCallbackIfError =
    (if \<not> path_is_valid path then Inl ERR_INVALID_ARG_VALUE
     else Inr (JUndefined,
       (case access path of
          Some error \<Rightarrow> (if hasCallbackIfError then [CallbackIfError] else [])
        | None \<Rightarrow> [CallbackIfExists])))"

text \<open>The callback calls made in an outcome, and the value returned, if any.\<close>

definition callbacks_made ::
  "fs_exception + jsval \<times> file_exists_call list \<Rightarrow> file_exists_call list" where
  "callbacks_made r = (case r of Inl e \<Rightarrow> [] | Inr (v, calls) \<Rightarrow> calls)"

definition returned_value ::
  "fs_exception + jsval \<times> file_exists_call list \<Rightarrow> jsval option" where
  "returned_value r = (case r of Inl e \<Rightarrow> None | Inr (v, calls) \<Rightarrow> Some v)"

subsection \<open>CSS injection\<close>

text \<open>
  A browser-content target (\<^verbatim>\<open>Electron.WebContents\<close>) and a completion callback are
  objects compared by identity; they are modelled by numbers naming them. A callback
  is opaque: running it is recorded, and it is assumed not to register stylesheets
  itself.
\<close>

type_synonym target = nat
type_synonym callback = nat

text \<open>
  The two module-level maps are JavaScript \<^verbatim>\<open>Map\<close>s from a string to an optional
  callback (\<open>None\<close> is \<^verbatim>\<open>undefined\<close>). A \<^verbatim>\<open>Map\<close> iterates in insertion order,
  so it is an association list, oldest key first. \<^verbatim>\<open>Map.prototype.set\<close> on a key
  that is present replaces the value and leaves the key where it is; on a new key it
  appends.
\<close>

type_synonym css_map = "(string \<times> callback option) list"

fun map_set :: "string \<Rightarrow> 'v \<Rightarrow> (string \<times> 'v) list \<Rightarrow> (string \<times> 'v) list" where
  "map_set k v [] = [(k, v)]"
| "map_set k v ((k', v') # m) =
     (if k' = k then (k', v) # m else (k', v') # map_set k v m)"

text \<open>
  The state the module owns: the two maps, and the \<^verbatim>\<open>did-finish-load\<close> listeners that
  \<^verbatim>\<open>setupCssInjection\<close> has attached, oldest first. A listener closes over the target
  it was attached to, so a listener is the name of its target.
\<close>

record css_state =
  cssToInject :: css_map
  cssToInjectFile :: css_map
  listeners :: "target list"

definition css_init :: css_state where
  "css_init = \<lparr> cssToInject = [], cssToInjectFile = [], listeners = [] \<rparr>"

definition setupCssInjection :: "target \<Rightarrow> css_state \<Rightarrow> css_state" where
  "setupCssInjection webContents s = s\<lparr> listeners := listeners s @ [webContents] \<rparr>"

definition injectCSS :: "target \<Rightarrow> string \<Rightarrow> callback option \<Rightarrow> css_state \<Rightarrow> css_state" where
  "injectCSS webContents css cb s =
    (let s' = (if length (cssToInject s) = 0 \<and> length (cssToInjectFile s) = 0
               then setupCssInjection webContents s else s)
     in s'\<lparr> cssToInject := map_set css cb (cssToInject s') \<rparr>)"

definition injectCSSAsFile :: "target \<Rightarrow> string \<Rightarrow> callback option \<Rightarrow> css_state \<Rightarrow> css_state" where
  "injectCSSAsFile webContents filepath cb s =
    (let s' = (if length (cssToInject s) = 0 \<and> length (cssToInjectFile s) = 0
               then setupCssInjection webContents s else s)
     in s'\<lparr> cssToInjectFile := map_set filepath cb (cssToInjectFile s') \<rparr>)"

text \<open>
  What the listener meets outside the module: \<^verbatim>\<open>fs.readFileSync\<close>, which returns the
  text of a file or throws (\<open>None\<close>), and whether the promise returned by
  \<^verbatim>\<open>webContents.insertCSS\<close> is fulfilled.
\<close>

record css_env =
  readFileSync :: "string \<Rightarrow> string option"
  insertCSS_resolves :: "target \<Rightarrow> string \<Rightarrow> bool"

text \<open>
  The listener runs one \<^verbatim>\<open>async\<close> function per entry, first over \<^verbatim>\<open>cssToInject\<close>,
  then over \<^verbatim>\<open>cssToInjectFile\<close>. Each function runs synchronously up to its
  \<^verbatim>\<open>await\<close>: it calls \<^verbatim>\<open>insertCSS\<close> at once, and for a file entry reads the file
  first. A read that throws rejects that function's promise only: no call is made
  for the entry, and the loop goes on. The callback of an entry runs later, once its
  \<^verbatim>\<open>insertCSS\<close> promise is fulfilled.

  A job is one such function that reached \<^verbatim>\<open>insertCSS\<close>: the entry it comes from,
  the text it inserts, and its callback. The result of a load event lists the
  \<^verbatim>\<open>insertCSS\<close> calls in the order they are made, each with its target and the
  entry it is made for, and the callbacks that run; the callbacks are listed in the
  order of their entries, the order in which the promises settle being outside the
  code.
\<close>

datatype css_source = InlineCSS string | CSSFile string

type_synonym css_job = "css_source \<times> string \<times> callback option"

record load_result =
  insertCalls :: "(target \<times> css_source \<times> string) list"
  callbacksRun :: "(css_source \<times> callback) list"

definition inline_jobs :: "css_map \<Rightarrow> css_job list" where
  "inline_jobs m = map (\<lambda>(css, callback). (InlineCSS css, css, callback)) m"

definition file_jobs :: "css_env \<Rightarrow> css_map \<Rightarrow> css_job list" where
  "file_jobs env m =
     List.map_filter (\<lambda>(filepath, callback).
        case readFileSync env filepath of
          None \<Rightarrow> None
        | Some text \<Rightarrow> Some (CSSFile filepath, text, callback)) m"

definition job_callback :: "css_env \<Rightarrow> target \<Rightarrow> css_job \<Rightarrow> (css_source \<times> callback) option" where
  "job_callback env webContents job =
     (case job of (src, text, callback) \<Rightarrow>
        (case callback of
           None \<Rightarrow> None
         | Some c \<Rightarrow> if insertCSS_resolves env webContents text then Some (src, c) else None))"

definition on_did_finish_load :: "css_env \<Rightarrow> target \<Rightarrow> css_state \<Rightarrow> load_result" where
  "on_did_finish_load env webContents s =
    (let jobs = inline_jobs (cssToInject s) @ file_jobs env (cssToInjectFile s)
     in \<lparr> insertCalls = map (\<lambda>(src, text, callback). (webContents, src, text)) jobs,
          callbacksRun = List.map_filter (job_callback env webContents) jobs \<rparr>)"

definition append_result :: "load_result \<Rightarrow> load_result \<Rightarrow> load_result" where
  "append_result a b =
     \<lparr> insertCalls = insertCalls a @ insertCalls b,
       callbacksRun = callbacksRun a @ callbacksRun b \<rparr>"

definition no_result :: load_result where
  "no_result = \<lparr> insertCalls = [], callbacksRun = [] \<rparr>"

text \<open>
  A load-completion event on target \<open>t\<close> runs the listeners attached to \<open>t\<close>, oldest
  first. The listener reads the maps and writes nothing, so the event leaves the
  state as it is.
\<close>

definition did_finish_load :: "css_env \<Rightarrow> target \<Rightarrow> css_state \<Rightarrow> load_result" where
  "did_finish_load env t s =
     fold (\<lambda>w acc. append_result acc (on_did_finish_load env w s))
       (filter (\<lambda>w. w = t) (listeners s)) no_result"

text \<open>
  Histories of the module: calls of the two exported functions and load events, run
  from the state of a freshly loaded module, with the results of the load events
  accumulated.
\<close>

datatype registration =
    InjectCSS target string "callback option"
  | InjectCSSAsFile target string "callback option"

datatype css_op = Register registration | DidFinishLoad target

fun register :: "registration \<Rightarrow> css_state \<Rightarrow> css_state" where
  "register (InjectCSS t css cb) s = injectCSS t css cb s"
| "register (InjectCSSAsFile t filepath cb) s = injectCSSAsFile t filepath cb s"

fun reg_target :: "registration \<Rightarrow> target" where
  "reg_target (InjectCSS t css cb) = t"
| "reg_target (InjectCSSAsFile t filepath cb) = t"

fun reg_source :: "registration \<Rightarrow> css_source" where
  "reg_source (InjectCSS t css cb) = InlineCSS css"
| "reg_source (InjectCSSAsFile t filepath cb) = CSSFile filepath"

fun reg_callback :: "registration \<Rightarrow> callback option" where
  "reg_callback (InjectCSS t css cb) = cb"
| "reg_callback (InjectCSSAsFile t filepath cb) = cb"

fun source_text :: "css_env \<Rightarrow> css_source \<Rightarrow> string option" where
  "source_text env (InlineCSS css) = Some css"
| "source_text env (CSSFile filepath) = readFileSync env filepath"

fun css_step :: "css_env \<Rightarrow> css_op \<Rightarrow> css_state \<times> load_result \<Rightarrow> css_state \<times> load_result" where
  "css_step env (Register r) (s, log) = (register r s, log)"
| "css_step env (DidFinishLoad t) (s, log) = (s, append_result log (did_finish_load env t s))"

definition css_run :: "css_env \<Rightarrow> css_op list \<Rightarrow> css_state \<times> load_result" where
  "css_run env ops = fold (css_step env) ops (css_init, no_result)"

fun inline_key :: "css_op \<Rightarrow> string option" where
  "inline_key (Register (InjectCSS t css cb)) = Some css"
| "inline_key _ = None"

fun file_key :: "css_op \<Rightarrow> string option" where
  "file_key (Register (InjectCSSAsFile t filepath cb)) = Some filepath"
| "file_key _ = None"

fun registration_of :: "css_op \<Rightarrow> registration option" where
  "registration_of (Register r) = Some r"
| "registration_of (DidFinishLoad t) = None"

text \<open>The callback stored for an entry, if the entry is pending (\<^verbatim>\<open>Map.prototype.get\<close>).\<close>

definition pending_callback :: "css_state \<Rightarrow> css_source \<Rightarrow> callback option option" where
  "pending_callback s src =
     (case src of InlineCSS css \<Rightarrow> map_of (cssToInject s) css
                | CSSFile filepath \<Rightarrow> map_of (cssToInjectFile s) filepath)"

definition pending :: "css_state \<Rightarrow> bool" where
  "pending s = (cssToInject s \<noteq> [] \<or> cssToInjectFile s \<noteq> [])"

section \<open>The configuration store\<close>

text \<open>
  The menu code reads and writes settings through the \<^verbatim>\<open>config\<close> module. The
  source of that module is not among the sources embedded here; its operations
  follow the written specification of the store.
\<close>

text \<open>
  Modelled from the spec: the state of the Config Store (module \<^verbatim>\<open>./config\<close>): the
  persisted values by dotted path, the paths exempt from the restart policy, and the
  number of application restarts the store has triggered. The restart itself
  belongs to the host application and is only counted.
\<close>

record config =
  stored :: "string \<rightharpoonup> jsval"
  restartExempt :: "string \<Rightarrow> bool"
  restarts :: nat

text \<open>
  Modelled from the spec: \<^verbatim>\<open>config.get(path)\<close> returns the stored value at the
  path and falls back to the value of the default table; a path that neither has
  is \<^verbatim>\<open>undefined\<close>.
\<close>

definition config_get :: "config \<Rightarrow> string \<Rightarrow> jsval" where
  "config_get c path =
     (case stored c path of
        Some v \<Rightarrow> v
      | None \<Rightarrow> (case map_of defaultConfig_paths path of Some v \<Rightarrow> v | None \<Rightarrow> JUndefined))"

text \<open>
  Modelled from the spec: \<^verbatim>\<open>config.set(path, value)\<close> persists the value at once
  and, when the restart-on-config-change flag is set and the path is not exempt,
  triggers a restart after the write.
\<close>

definition config_set :: "string \<Rightarrow> jsval \<Rightarrow> config \<Rightarrow> config" where
  "config_set path v c =
     (let c' = c\<lparr> stored := (stored c)(path \<mapsto> v) \<rparr>
      in if truthy (config_get c' ''options.restartOnConfigChanges'') \<and> \<not> restartExempt c path
         then c'\<lparr> restarts := Suc (restarts c') \<rparr>
         else c')"

text \<open>
  Modelled from the spec: \<^verbatim>\<open>config.setMenuOption(path, value)\<close> is the variant of
  \<^verbatim>\<open>set\<close> that the menu handlers call; on the store it acts as \<^verbatim>\<open>set\<close> does.
\<close>

definition config_setMenuOption :: "string \<Rightarrow> jsval \<Rightarrow> config \<Rightarrow> config" where
  "config_setMenuOption path v c = config_set path v c"

text \<open>
  Modelled from the spec: the plugin-scoped operations of the store work on the
  subtree \<^verbatim>\<open>plugins.<name>\<close>; this is the path of a plugin's \<^verbatim>\<open>enabled\<close> flag.
\<close>

definition plugin_enabled_path :: "string \<Rightarrow> string" where
  "plugin_enabled_path plugin = ''plugins.'' @ plugin @ ''.enabled''"

text \<open>
  Modelled from the spec: \<^verbatim>\<open>config.plugins.isEnabled(name)\<close> reads the plugin's
  \<^verbatim>\<open>enabled\<close> flag.
\<close>

definition plugins_isEnabled :: "config \<Rightarrow> string \<Rightarrow> bool" where
  "plugins_isEnabled c plugin = truthy (config_get c (plugin_enabled_path plugin))"

text \<open>
  Modelled from the spec: \<^verbatim>\<open>config.plugins.enable(name)\<close> sets the plugin's
  \<^verbatim>\<open>enabled\<close> flag.
\<close>

definition plugins_enable :: "string \<Rightarrow> config \<Rightarrow> config" where
  "plugins_enable plugin c = config_set (plugin_enabled_path plugin) (JBool True) c"

text \<open>
  Modelled from the spec: \<^verbatim>\<open>config.plugins.disable(name)\<close> clears the plugin's
  \<^verbatim>\<open>enabled\<close> flag.
\<close>

definition plugins_disable :: "string \<Rightarrow> config \<Rightarrow> config" where
  "plugins_disable plugin c = config_set (plugin_enabled_path plugin) (JBool False) c"

section \<open>The menu\<close>

subsection \<open>Menu items\<close>

text \<open>
  A click handler of the template is a closure. Each handler written in the menu
  source has a constructor here, with the values it closes over as arguments;
  \<open>run_click\<close> below gives the body of each. \<open>SetMenuOptionChecked path\<close> is the
  recurring handler \<^verbatim>\<open>config.setMenuOption(path, item.checked)\<close> and
  \<open>ConfigSet path v\<close> the recurring \<^verbatim>\<open>config.set(path, v)\<close>. \<open>PluginHandler\<close>
  stands for a handler of an item contributed by a plugin.
\<close>

datatype click_handler =
    PluginEnabledClick string bool bool
  | SetMenuOptionChecked string
  | ConfigSet string jsval
  | ImportCustomCSSClick
  | SingleInstanceLockClick
  | AlwaysOnTopClick
  | HideMenuClick
  | TrayDisabledClick
  | TrayVisibleClick
  | TrayHiddenClick
  | SetProxyClick
  | ToggleDevToolsClick
  | EditConfigClick
  | GoBackClick
  | GoForwardClick
  | CopyCurrentURLClick
  | RestartAppClick
  | PluginHandler string nat

datatype item_type = Checkbox | Radio | Separator

text \<open>
  \<^verbatim>\<open>Electron.MenuItemConstructorOptions\<close>, with the properties the template sets;
  a property that an item does not set is \<open>None\<close>. The value given for \<^verbatim>\<open>checked\<close>
  is converted to a boolean, as Electron does.
\<close>

datatype menu_item = MenuItem
  (item_label: "string option")
  (item_type: "item_type option")
  (item_checked: "bool option")
  (item_role: "string option")
  (item_click: "click_handler option")
  (item_submenu: "menu_item list option")

text \<open>The shapes of object literal that the template uses.\<close>

definition checkbox :: "string \<Rightarrow> bool \<Rightarrow> click_handler \<Rightarrow> menu_item" where
  "checkbox l c h = MenuItem (Some l) (Some Checkbox) (Some c) None (Some h) None"

definition radio :: "string \<Rightarrow> bool \<Rightarrow> click_handler \<Rightarrow> menu_item" where
  "radio l c h = MenuItem (Some l) (Some Radio) (Some c) None (Some h) None"

definition separator :: menu_item where
  "separator = MenuItem None (Some Separator) None None None None"

definition role_item :: "string \<Rightarrow> menu_item" where
  "role_item r = MenuItem None None None (Some r) None None"

definition action_item :: "string \<Rightarrow> click_handler \<Rightarrow> menu_item" where
  "action_item l h = MenuItem (Some l) None None None (Some h) None"

definition submenu_item :: "string \<Rightarrow> menu_item list \<Rightarrow> menu_item" where
  "submenu_item l items = MenuItem (Some l) None None None None (Some items)"

text \<open>
  What the menu code takes from its surroundings: the platform, the application
  name, whether the in-app menu was loaded at launch, the list returned by
  \<^verbatim>\<open>getAllPlugins()\<close>, whether the file \<^verbatim>\<open>plugins/<name>/menu.js\<close> exists
  (\<^verbatim>\<open>existsSync\<close>), the items which that module's exported function returns, the
  keys of \<^verbatim>\<open>startingPages\<close>, and what the handlers observe when they run: the state
  of the window and of the application, and the answers of the two dialogs
  (\<open>None\<close> is a cancelled prompt, respectively an absent \<^verbatim>\<open>filePaths\<close>).
\<close>

record menu_env =
  platform :: platform
  appName :: string
  inAppMenuActive :: bool
  getAllPlugins :: "string list"
  pluginMenuExists :: "string \<Rightarrow> bool"
  getPluginMenu :: "string \<Rightarrow> config \<Rightarrow> menu_item list"
  startingPages :: "string list"
  hasSingleInstanceLock :: bool
  isDevToolsOpened :: bool
  canGoBack :: bool
  canGoForward :: bool
  getURL :: string
  openDialogFilePaths :: "string list option"
  promptOutput :: "string option"

subsection \<open>The template\<close>

definition betaPlugins :: "string list" where
  "betaPlugins = [''crossfade'', ''lumiastream'']"

text \<open>
  \<^verbatim>\<open>pluginEnabledMenu(plugin, label, hasSubmenu, refreshMenu)\<close>; the last argument
  of the model says whether a \<^verbatim>\<open>refreshMenu\<close> function is passed.
\<close>

definition pluginEnabledMenu :: "config \<Rightarrow> string \<Rightarrow> string \<Rightarrow> bool \<Rightarrow> bool \<Rightarrow> menu_item" where
  "pluginEnabledMenu c plugin label hasSubmenu hasRefreshMenu =
     checkbox (if label \<noteq> [] then label else plugin) (plugins_isEnabled c plugin)
       (PluginEnabledClick plugin hasSubmenu hasRefreshMenu)"

definition plugin_label :: "string \<Rightarrow> string" where
  "plugin_label plugin = (if plugin \<in> set betaPlugins then plugin @ '' [beta]'' else plugin)"

text \<open>The function mapped over the plugin names to build the Plugins submenu.\<close>

definition plugin_menu_entry :: "menu_env \<Rightarrow> config \<Rightarrow> string \<Rightarrow> menu_item" where
  "plugin_menu_entry env c plugin =
     (let pluginLabel = plugin_label plugin
      in if pluginMenuExists env plugin then
           (if \<not> plugins_isEnabled c plugin then pluginEnabledMenu c plugin pluginLabel True True
            else submenu_item pluginLabel
                   ([pluginEnabledMenu c plugin ''Enabled'' True True, separator]
                    @ getPluginMenu env plugin c))
         else pluginEnabledMenu c plugin pluginLabel False False)"

definition plugins_submenu :: "menu_env \<Rightarrow> config \<Rightarrow> menu_item list" where
  "plugins_submenu env c = map (plugin_menu_entry env c) (getAllPlugins env)"

text \<open>A checkbox showing the setting at a path and writing it back when clicked.\<close>

definition option_checkbox :: "config \<Rightarrow> string \<Rightarrow> string \<Rightarrow> menu_item" where
  "option_checkbox c l path = checkbox l (truthy (config_get c path)) (SetMenuOptionChecked path)"

definition visual_tweaks_submenu :: "config \<Rightarrow> menu_item list" where
  "visual_tweaks_submenu c =
    [ option_checkbox c ''Remove upgrade button'' ''options.removeUpgradeButton'',
      submenu_item ''Like buttons''
        [ radio ''Default'' (\<not> truthy (config_get c ''options.likeButtons''))
            (ConfigSet ''options.likeButtons'' (JStr '''')),
          radio ''Force show'' (config_get c ''options.likeButtons'' = JStr ''force'')
            (ConfigSet ''options.likeButtons'' (JStr ''force'')),
          radio ''Hide'' (config_get c ''options.likeButtons'' = JStr ''hide'')
            (ConfigSet ''options.likeButtons'' (JStr ''hide'')) ],
      submenu_item ''Theme''
        [ radio ''No theme'' (\<not> truthy (config_get c ''options.themes''))
            (ConfigSet ''options.themes'' (JArray [])),
          separator,
          radio ''Import custom CSS file'' False ImportCustomCSSClick ] ]"

definition tray_submenu :: "config \<Rightarrow> menu_item list" where
  "tray_submenu c =
    [ radio ''Disabled'' (\<not> truthy (config_get c ''options.tray'')) TrayDisabledClick,
      radio ''Enabled + app visible''
        (truthy (config_get c ''options.tray'') \<and> truthy (config_get c ''options.appVisible''))
        TrayVisibleClick,
      radio ''Enabled + app hidden''
        (truthy (config_get c ''options.tray'') \<and> \<not> truthy (config_get c ''options.appVisible''))
        TrayHiddenClick,
      separator,
      option_checkbox c ''Play/Pause on click'' ''options.trayClickPlayPause'' ]"

definition advanced_options_submenu :: "menu_env \<Rightarrow> config \<Rightarrow> menu_item list" where
  "advanced_options_submenu env c =
    [ checkbox ''Proxy'' (truthy (config_get c ''options.proxy'')) SetProxyClick,
      option_checkbox c ''Override useragent'' ''options.overrideUserAgent'',
      option_checkbox c ''Disable hardware acceleration'' ''options.disableHardwareAcceleration'',
      option_checkbox c ''Restart on config changes'' ''options.restartOnConfigChanges'',
      option_checkbox c ''Reset App cache when app starts'' ''options.autoResetAppCache'',
      separator,
      (if is_macOS (platform env) then action_item ''Toggle DevTools'' ToggleDevToolsClick
       else role_item ''toggleDevTools''),
      action_item ''Edit config.json'' EditConfigClick ]"

definition options_submenu :: "menu_env \<Rightarrow> config \<Rightarrow> menu_item list" where
  "options_submenu env c =
    [ option_checkbox c ''Auto-update'' ''options.autoUpdates'',
      option_checkbox c ''Resume last song when app starts'' ''options.resumeOnStart'',
      submenu_item ''Starting page''
        (map (\<lambda>name. radio name (config_get c ''options.startingPage'' = JStr name)
                 (ConfigSet ''options.startingPage'' (JStr name)))
           (startingPages env)),
      submenu_item ''Visual Tweaks'' (visual_tweaks_submenu c),
      checkbox ''Single instance lock'' True SingleInstanceLockClick,
      checkbox ''Always on top'' (truthy (config_get c ''options.alwaysOnTop'')) AlwaysOnTopClick ]
    @ (if is_windows (platform env) \<or> is_linux (platform env)
       then [ checkbox ''Hide menu'' (truthy (config_get c ''options.hideMenu'')) HideMenuClick ]
       else [])
    @ (if is_windows (platform env) \<or> is_macOS (platform env)
       then [ option_checkbox c ''Start at login'' ''options.startAtLogin'' ]
       else [])
    @ [ submenu_item ''Tray'' (tray_submenu c),
        separator,
        submenu_item ''Advanced options'' (advanced_options_submenu env c) ]"

definition mainMenuTemplate :: "menu_env \<Rightarrow> config \<Rightarrow> menu_item list" where
  "mainMenuTemplate env c =
    [ submenu_item ''Plugins'' (plugins_submenu env c),
      submenu_item ''Options'' (options_submenu env c),
      submenu_item ''View''
        [ role_item ''reload'', role_item ''forceReload'', separator,
          role_item ''zoomIn'', role_item ''zoomOut'', role_item ''resetZoom'', separator,
          role_item ''togglefullscreen'' ],
      submenu_item ''Navigation''
        [ action_item ''Go back'' GoBackClick,
          action_item ''Go forward'' GoForwardClick,
          action_item ''Copy current URL'' CopyCurrentURLClick,
          action_item ''Restart App'' RestartAppClick,
          role_item ''quit'' ] ]"

text \<open>
  \<^verbatim>\<open>setApplicationMenu\<close> builds the template that it hands to
  \<^verbatim>\<open>Menu.buildFromTemplate\<close>; the model returns that template.
\<close>

definition app_name_menu :: "menu_env \<Rightarrow> menu_item" where
  "app_name_menu env =
     submenu_item (appName env)
       [ role_item ''about'', separator,
         role_item ''hide'', role_item ''hideOthers'', role_item ''unhide'', separator,
         role_item ''selectAll'', role_item ''cut'', role_item ''copy'', role_item ''paste'',
         separator,
         role_item ''minimize'', role_item ''close'', role_item ''quit'' ]"

definition setApplicationMenu :: "menu_env \<Rightarrow> config \<Rightarrow> menu_item list" where
  "setApplicationMenu env c =
     (let menuTemplate = mainMenuTemplate env c
      in if platform env = ''darwin'' then app_name_menu env # menuTemplate else menuTemplate)"

subsection \<open>Click handlers\<close>

text \<open>
  A handler changes the configuration and calls into Electron and the host
  application. The calls are recorded in order; the configuration is the store of
  the previous section.
\<close>

datatype effect =
    SetApplicationMenu
  | SendRefreshMenu
  | SetAlwaysOnTop bool
  | ShowMessageBox
  | ReleaseSingleInstanceLock
  | RequestSingleInstanceLock
  | CloseDevTools
  | OpenDevTools
  | ConfigEdit
  | GoBack
  | GoForward
  | ClipboardWriteText string
  | RestartApp
  | PluginHandlerRun string nat

record world =
  config :: config
  effects :: "effect list"

definition do_effects :: "effect list \<Rightarrow> world \<Rightarrow> world" where
  "do_effects es w = w\<lparr> effects := effects w @ es \<rparr>"

definition update_config :: "(config \<Rightarrow> config) \<Rightarrow> world \<Rightarrow> world" where
  "update_config f w = w\<lparr> config := f (config w) \<rparr>"

text \<open>
  \<^verbatim>\<open>refreshMenu\<close>, the closure of \<^verbatim>\<open>mainMenuTemplate\<close>: it sets the application
  menu again and, with the in-app menu active, notifies the renderer.
\<close>

definition refreshMenu :: "menu_env \<Rightarrow> world \<Rightarrow> world" where
  "refreshMenu env w =
     do_effects (SetApplicationMenu # (if inAppMenuActive env then [SendRefreshMenu] else [])) w"

text \<open>
  \<^verbatim>\<open>setProxy(item, win)\<close>. The handler awaits the prompt; its answer is
  \<open>promptOutput\<close>, a string or, when the user cancels, no string. The boolean
  threaded through is \<^verbatim>\<open>item.checked\<close>, which this handler assigns.
\<close>

definition setProxy :: "menu_env \<Rightarrow> bool \<times> world \<Rightarrow> bool \<times> world" where
  "setProxy env iw =
     (case iw of (checked, w) \<Rightarrow>
        (case promptOutput env of
           Some output \<Rightarrow>
             (output \<noteq> [], update_config (config_setMenuOption ''options.proxy'' (JStr output)) w)
         | None \<Rightarrow> (\<not> checked, w)))"

text \<open>
  The body of each handler, on \<^verbatim>\<open>item.checked\<close> as it is when the handler is
  called and on the world.
\<close>

fun run_click :: "menu_env \<Rightarrow> click_handler \<Rightarrow> bool \<times> world \<Rightarrow> bool \<times> world" where
  "run_click env (PluginEnabledClick plugin hasSubmenu hasRefreshMenu) (checked, w) =
     (let w1 = (if checked then update_config (plugins_enable plugin) w
                else update_config (plugins_disable plugin) w)
      in (checked, if hasSubmenu \<and> hasRefreshMenu then refreshMenu env w1 else w1))"
| "run_click env (SetMenuOptionChecked path) (checked, w) =
     (checked, update_config (config_setMenuOption path (JBool checked)) w)"
| "run_click env (ConfigSet path v) (checked, w) = (checked, update_config (config_set path v) w)"
| "run_click env ImportCustomCSSClick (checked, w) =
     (case openDialogFilePaths env of
        Some filePaths \<Rightarrow>
          (checked, update_config (config_set ''options.themes'' (JArray (map JStr filePaths))) w)
      | None \<Rightarrow> (checked, w))"
| "run_click env SingleInstanceLockClick (checked, w) =
     (if \<not> checked \<and> hasSingleInstanceLock env then (checked, do_effects [ReleaseSingleInstanceLock] w)
      else if checked \<and> \<not> hasSingleInstanceLock env then (checked, do_effects [RequestSingleInstanceLock] w)
      else (checked, w))"
| "run_click env AlwaysOnTopClick (checked, w) =
     (checked, do_effects [SetAlwaysOnTop checked]
        (update_config (config_setMenuOption ''options.alwaysOnTop'' (JBool checked)) w))"
| "run_click env HideMenuClick (checked, w) =
     (let w1 = update_config (config_setMenuOption ''options.hideMenu'' (JBool checked)) w
      in if checked \<and> \<not> truthy (config_get (config w1) ''options.hideMenuWarned'')
         then (checked, do_effects [ShowMessageBox] w1)
         else (checked, w1))"
| "run_click env TrayDisabledClick (checked, w) =
     (checked, update_config (config_setMenuOption ''options.appVisible'' (JBool True))
        (update_config (config_setMenuOption ''options.tray'' (JBool False)) w))"
| "run_click env TrayVisibleClick (checked, w) =
     (checked, update_config (config_setMenuOption ''options.appVisible'' (JBool True))
        (update_config (config_setMenuOption ''options.tray'' (JBool True)) w))"
| "run_click env TrayHiddenClick (checked, w) =
     (checked, update_config (config_setMenuOption ''options.appVisible'' (JBool False))
        (update_config (config_setMenuOption ''options.tray'' (JBool True)) w))"
| "run_click env SetProxyClick (checked, w) = setProxy env (checked, w)"
| "run_click env ToggleDevToolsClick (checked, w) =
     (if isDevToolsOpened env then (checked, do_effects [CloseDevTools] w)
      else (checked, do_effects [OpenDevTools] w))"
| "run_click env EditConfigClick (checked, w) = (checked, do_effects [ConfigEdit] w)"
| "run_click env GoBackClick (checked, w) =
     (if canGoBack env then (checked, do_effects [GoBack] w) else (checked, w))"
| "run_click env GoForwardClick (checked, w) =
     (if canGoForward env then (checked, do_effects [GoForward] w) else (checked, w))"
| "run_click env CopyCurrentURLClick (checked, w) =
     (checked, do_effects [ClipboardWriteText (getURL env)] w)"
| "run_click env RestartAppClick (checked, w) = (checked, do_effects [RestartApp] w)"
| "run_click env (PluginHandler plugin n) (checked, w) =
     (checked, do_effects [PluginHandlerRun plugin n] w)"

text \<open>
  A click by the user, as Electron delivers it: a checkbox item has its
  \<^verbatim>\<open>checked\<close> flipped and a radio item has it set before the handler is called,
  so the handler sees the new value. The result is \<^verbatim>\<open>item.checked\<close> once the
  handler is done, and the world.
\<close>

definition user_click :: "menu_env \<Rightarrow> menu_item \<Rightarrow> world \<Rightarrow> bool \<times> world" where
  "user_click env item w =
     (let before = (item_checked item = Some True);
          checked = (case item_type item of
                       Some Checkbox \<Rightarrow> \<not> before
                     | Some Radio \<Rightarrow> True
                     | _ \<Rightarrow> before)
      in case item_click item of
           Some h \<Rightarrow> run_click env h (checked, w)
         | None \<Rightarrow> (checked, w))"

text \<open>Whether an item has a submenu with an item of the given role directly in it.\<close>

definition has_role_child :: "string \<Rightarrow> menu_item \<Rightarrow> bool" where
  "has_role_child r item =
     (case item_submenu item of
        Some items \<Rightarrow> r \<in> set (List.map_filter item_role items)
      | None \<Rightarrow> False)"

section \<open>Example surroundings\<close>

text \<open>
  Concrete surroundings on which the properties below are evaluated: a file system
  with one stylesheet and one plugin menu module, a store holding no value of its
  own, and a Linux desktop on which two of the four default plugins have a menu
  module.
\<close>

definition access_example :: "string \<Rightarrow> access_error option" where
  "access_example path = (if path = ''menu.js'' then None else Some ENOENT)"

definition css_env_example :: css_env where
  "css_env_example =
     \<lparr> readFileSync = (\<lambda>p. if p = ''a.css'' then Some ''a{}'' else None),
       insertCSS_resolves = (\<lambda>t x. True) \<rparr>"

definition config_example :: config where
  "config_example = \<lparr> stored = Map.empty, restartExempt = (\<lambda>p. False), restarts = 0 \<rparr>"

definition menu_env_example :: menu_env where
  "menu_env_example =
     \<lparr> platform = ''linux'', appName = ''YouTube Music'', inAppMenuActive = False,
       getAllPlugins = getAvailablePluginNames ''linux'' defaultConfig_plugins,
       pluginMenuExists = (\<lambda>p. p = ''adblocker'' \<or> p = ''downloader''),
       getPluginMenu = (\<lambda>p c. [action_item ''Plugin item'' (PluginHandler p 0)]),
       startingPages = [''Default'', ''Home''],
       hasSingleInstanceLock = True, isDevToolsOpened = False, canGoBack = False,
       canGoForward = False, getURL = ''https://music.youtube.com'',
       openDialogFilePaths = None, promptOutput = None \<rparr>"

definition world_example :: world where
  "world_example = \<lparr> config = config_example, effects = [] \<rparr>"

section \<open>Properties\<close>

subsection \<open>Available plugin names\<close>

text \<open>
  C1. On every platform the available plugin names are the keys of the \<^verbatim>\<open>plugins\<close>
  table in declaration order, without \<^verbatim>\<open>touchbar\<close> on Windows and Linux and
  without \<^verbatim>\<open>taskbar-mediacontrol\<close> on macOS and Linux; nothing else is removed,
  added or moved. This holds for every table, and the result is a function of the
  platform and the table alone. For the table of the repository, which declares
  neither name, the list is its four keys on every platform.
\<close>

theorem getAvailablePluginNames_spec:
  "getAvailablePluginNames p plugins =
     filter (\<lambda>name. \<not> (name = ''touchbar'' \<and> (is_windows p \<or> is_linux p)) \<and>
                    \<not> (name = ''taskbar-mediacontrol'' \<and> (is_macOS p \<or> is_linux p)))
            (object_keys plugins)
   \<and> getAvailablePluginNames p defaultConfig_plugins =
       [''navigation'', ''shortcuts'', ''adblocker'', ''downloader'']"
proof
  have kept: "plugin_name_kept p name =
      (\<not> (name = ''touchbar'' \<and> (is_windows p \<or> is_linux p)) \<and>
       \<not> (name = ''taskbar-mediacontrol'' \<and> (is_macOS p \<or> is_linux p)))" for name
    by (auto simp: plugin_name_kept_def is_windows_def is_macOS_def is_linux_def)
  show "getAvailablePluginNames p plugins =
     filter (\<lambda>name. \<not> (name = ''touchbar'' \<and> (is_windows p \<or> is_linux p)) \<and>
                    \<not> (name = ''taskbar-mediacontrol'' \<and> (is_macOS p \<or> is_linux p)))
            (object_keys plugins)"
    unfolding getAvailablePluginNames_def using kept by presburger
  show "getAvailablePluginNames p defaultConfig_plugins =
       [''navigation'', ''shortcuts'', ''adblocker'', ''downloader'']"
    by (simp add: getAvailablePluginNames_def object_keys_def defaultConfig_plugins_def
        plugin_name_kept_def)
qed

theorem getAvailablePluginNames_spec_witness:
  "getAvailablePluginNames ''linux''
      [(''touchbar'', []), (''navigation'', []), (''taskbar-mediacontrol'', []), (''adblocker'', [])]
     = [''navigation'', ''adblocker'']
   \<and> getAvailablePluginNames ''win32''
      [(''touchbar'', []), (''navigation'', []), (''taskbar-mediacontrol'', []), (''adblocker'', [])]
     = [''navigation'', ''taskbar-mediacontrol'', ''adblocker'']
   \<and> getAvailablePluginNames ''darwin''
      [(''touchbar'', []), (''navigation'', []), (''taskbar-mediacontrol'', []), (''adblocker'', [])]
     = [''touchbar'', ''navigation'', ''adblocker'']
   \<and> getAvailablePluginNames ''freebsd''
      [(''touchbar'', []), (''navigation'', []), (''taskbar-mediacontrol'', []), (''adblocker'', [])]
     = [''touchbar'', ''navigation'', ''taskbar-mediacontrol'', ''adblocker'']"
  using getAvailablePluginNames_spec [of "''linux''"
      "[(''touchbar'', []), (''navigation'', []), (''taskbar-mediacontrol'', []), (''adblocker'', [])]"]
    getAvailablePluginNames_spec [of "''win32''"
      "[(''touchbar'', []), (''navigation'', []), (''taskbar-mediacontrol'', []), (''adblocker'', [])]"]
    getAvailablePluginNames_spec [of "''darwin''"
      "[(''touchbar'', []), (''navigation'', []), (''taskbar-mediacontrol'', []), (''adblocker'', [])]"]
    getAvailablePluginNames_spec [of "''freebsd''"
      "[(''touchbar'', []), (''navigation'', []), (''taskbar-mediacontrol'', []), (''adblocker'', [])]"]
  by (simp add: object_keys_def is_windows_def is_macOS_def is_linux_def)

subsection \<open>Existence check\<close>

text \<open>
  C9, as the code has it. For every path that \<^verbatim>\<open>fs.access\<close> accepts, the error
  callback is called exactly when the access check reports an error (and one is
  given, the parameter being optional), the exists callback exactly when the check
  reports none, and \<^verbatim>\<open>fileExists\<close> returns \<^verbatim>\<open>undefined\<close> in either case, so the
  outcome is carried by which callback runs and not by a returned result. For a
  path with a NUL character \<^verbatim>\<open>fs.access\<close> throws out of \<^verbatim>\<open>fileExists\<close> and
  neither callback is called. On every path at most one callback call is made.
\<close>

theorem fileExists_callbacks:
  "(path_is_valid path \<longrightarrow>
      (CallbackIfError \<in> set (callbacks_made (fileExists access path True)) \<longleftrightarrow> access path \<noteq> None)
    \<and> (CallbackIfExists \<in> set (callbacks_made (fileExists access path hasCallbackIfError))
          \<longleftrightarrow> access path = None)
    \<and> (CallbackIfError \<in> set (callbacks_made (fileExists access path hasCallbackIfError))
          \<longleftrightarrow> hasCallbackIfError \<and> access path \<noteq> None)
    \<and> returned_value (fileExists access path hasCallbackIfError) = Some JUndefined)
   \<and> (\<not> path_is_valid path \<longrightarrow>
      fileExists access path hasCallbackIfError = Inl ERR_INVALID_ARG_VALUE
      \<and> callbacks_made (fileExists access path hasCallbackIfError) = [])
   \<and> length (callbacks_made (fileExists access path hasCallbackIfError)) \<le> 1"
  by (simp add: fileExists_def callbacks_made_def returned_value_def split: option.split)

theorem fileExists_callbacks_witness:
  "fileExists access_example ''menu.js'' True = Inr (JUndefined, [CallbackIfExists])
   \<and> fileExists access_example ''missing.js'' True = Inr (JUndefined, [CallbackIfError])
   \<and> fileExists access_example ''missing.js'' False = Inr (JUndefined, [])
   \<and> fileExists access_example [CHR ''a'', CHR 0x00] True = Inl ERR_INVALID_ARG_VALUE"
  using fileExists_callbacks [of "''menu.js''" access_example True]
    fileExists_callbacks [of "''missing.js''" access_example False]
    fileExists_callbacks [of "[CHR ''a'', CHR 0x00]" access_example True]
  by (simp add: fileExists_def access_example_def path_is_valid_def)

text \<open>
  A path with a NUL character, on a file system whose access check would report an
  error for it: neither callback is called, and nothing is returned.
\<close>

theorem fileExists_invalid_path_no_callback:
  "access_example [CHR ''a'', CHR 0x00] \<noteq> None
   \<and> callbacks_made (fileExists access_example [CHR ''a'', CHR 0x00] True) = []
   \<and> returned_value (fileExists access_example [CHR ''a'', CHR 0x00] True) = None"
  by (simp add: fileExists_def access_example_def path_is_valid_def callbacks_made_def
      returned_value_def)

subsection \<open>CSS injection: the maps and the observer\<close>

lemma map_filter_append:
  "List.map_filter f (xs @ ys) = List.map_filter f xs @ List.map_filter f ys"
  by (simp add: List.map_filter_def)

lemma map_set_keys:
  "map fst (map_set k v m) = (if k \<in> fst ` set m then map fst m else map fst m @ [k])"
  by (induction m) force+

lemma map_set_nonempty: "map_set k v m \<noteq> []"
  by (cases m) (auto split: if_splits)

lemma map_set_map_of: "map_of (map_set k v m) = (map_of m)(k \<mapsto> v)"
  by (induction m) auto

lemma map_set_mem: "(k, v) \<in> set (map_set k v m)"
  by (induction m) auto

lemma injectCSS_maps:
  "cssToInject (injectCSS t css cb s) = map_set css cb (cssToInject s)"
  "cssToInjectFile (injectCSS t css cb s) = cssToInjectFile s"
  by (simp_all add: injectCSS_def setupCssInjection_def Let_def)

lemma injectCSSAsFile_maps:
  "cssToInject (injectCSSAsFile t p cb s) = cssToInject s"
  "cssToInjectFile (injectCSSAsFile t p cb s) = map_set p cb (cssToInjectFile s)"
  by (simp_all add: injectCSSAsFile_def setupCssInjection_def Let_def)

lemma register_listeners:
  "listeners (register r s) =
     (if cssToInject s = [] \<and> cssToInjectFile s = [] then listeners s @ [reg_target r]
      else listeners s)"
  by (cases r) (simp_all add: injectCSS_def injectCSSAsFile_def setupCssInjection_def)

lemma register_listeners_pending: "pending s \<Longrightarrow> listeners (register r s) = listeners s"
  by (auto simp: register_listeners pending_def)

lemma register_pending: "pending (register r s)"
  by (cases r) (auto simp: pending_def injectCSS_maps injectCSSAsFile_maps map_set_nonempty)

lemma register_init_listeners: "listeners (register r css_init) = [reg_target r]"
  by (simp add: register_listeners) (simp add: css_init_def)

text \<open>Once an entry is pending, no step of a history touches the listeners.\<close>

lemma fold_step_pending:
  "pending s \<Longrightarrow> listeners (fst (fold (css_step env) ops (s, log))) = listeners s
     \<and> pending (fst (fold (css_step env) ops (s, log)))"
proof (induction ops arbitrary: s log)
  case Nil
  then show ?case by simp
next
  case (Cons op ops)
  show ?case
  proof (cases op)
    case (Register r)
    with Cons show ?thesis
      by (simp add: register_pending register_listeners_pending)
  next
    case (DidFinishLoad t)
    with Cons show ?thesis by simp
  qed
qed

lemma fold_step_first_registration:
  "List.map_filter registration_of ops = r # rest \<Longrightarrow>
   listeners (fst (fold (css_step env) ops (css_init, log))) = [reg_target r]"
proof (induction ops arbitrary: log)
  case Nil
  then show ?case by simp
next
  case (Cons op ops)
  show ?case
  proof (cases op)
    case (Register r')
    with Cons.prems have "r' = r" by simp
    with Register show ?thesis
      using fold_step_pending [OF register_pending, of env ops r css_init log]
      by (simp add: register_init_listeners)
  next
    case (DidFinishLoad t)
    with Cons show ?thesis by simp
  qed
qed

lemma css_run_listeners:
  "List.map_filter registration_of ops = r # rest \<Longrightarrow>
   listeners (fst (css_run env ops)) = [reg_target r]"
  unfolding css_run_def by (rule fold_step_first_registration)

lemma did_finish_load_single:
  "listeners s = [w] \<Longrightarrow>
   did_finish_load env t s = (if t = w then on_did_finish_load env w s else no_result)"
  by (simp add: did_finish_load_def append_result_def no_result_def)

lemma css_run_snoc: "css_run env (ops @ [op]) = css_step env op (css_run env ops)"
  by (simp add: css_run_def)

text \<open>
  C2, as the code has it. A registration attaches an observer to its target exactly
  when both maps are empty at that moment. So in every history whose first
  registration is \<open>r1\<close>, the only observer there ever is sits on the target of
  \<open>r1\<close>: a load event on that target runs the listener on the entries pending for
  all targets, and a load event on any other target applies nothing.
\<close>

theorem css_observer_attached_once:
  "listeners (register r s) =
     (if cssToInject s = [] \<and> cssToInjectFile s = [] then listeners s @ [reg_target r]
      else listeners s)
   \<and> (List.map_filter registration_of ops = r1 # rest \<longrightarrow>
        listeners (fst (css_run env ops)) = [reg_target r1]
        \<and> did_finish_load env (reg_target r1) (fst (css_run env ops))
            = on_did_finish_load env (reg_target r1) (fst (css_run env ops))
        \<and> (\<forall>t. t \<noteq> reg_target r1 \<longrightarrow> did_finish_load env t (fst (css_run env ops)) = no_result))"
  using css_run_listeners [of ops r1 rest env]
  by (simp add: register_listeners did_finish_load_single)

theorem css_observer_attached_once_witness:
  "listeners (fst (css_run css_env_example
      [Register (InjectCSS 0 ''a{}'' None), Register (InjectCSS 1 ''b{}'' None)])) = [0]
   \<and> insertCalls (did_finish_load css_env_example 0 (fst (css_run css_env_example
      [Register (InjectCSS 0 ''a{}'' None), Register (InjectCSS 1 ''b{}'' None)])))
      = [(0, InlineCSS ''a{}'', ''a{}''), (0, InlineCSS ''b{}'', ''b{}'')]
   \<and> did_finish_load css_env_example 1 (fst (css_run css_env_example
      [Register (InjectCSS 0 ''a{}'' None), Register (InjectCSS 1 ''b{}'' None)])) = no_result"
  using css_observer_attached_once [of "InjectCSS 0 ''a{}'' None" css_init
      "[Register (InjectCSS 0 ''a{}'' None), Register (InjectCSS 1 ''b{}'' None)]"
      "InjectCSS 0 ''a{}'' None" "[InjectCSS 1 ''b{}'' None]" css_env_example]
  by (simp add: css_run_def css_init_def injectCSS_def
      setupCssInjection_def on_did_finish_load_def inline_jobs_def file_jobs_def)

text \<open>
  Stylesheets scheduled for targets 0 and 1, in this order: target 1 gets no
  observer, and its load event makes no \<^verbatim>\<open>insertCSS\<close> call.
\<close>

theorem css_second_target_unobserved:
  "1 \<notin> set (listeners (fst (css_run css_env_example
      [Register (InjectCSS 0 ''a{}'' None), Register (InjectCSS 1 ''b{}'' None)])))
   \<and> insertCalls (snd (css_run css_env_example
      [Register (InjectCSS 0 ''a{}'' None), Register (InjectCSS 1 ''b{}'' None),
       DidFinishLoad 1])) = []"
  by (simp add: css_run_def css_init_def injectCSS_def setupCssInjection_def
      did_finish_load_def no_result_def append_result_def)

subsection \<open>CSS injection: the order of application\<close>

lemma css_run_inline_keys:
  "map fst (cssToInject (fst (css_run env ops))) = rev (remdups (rev (List.map_filter inline_key ops)))"
proof (induction ops rule: rev_induct)
  case Nil
  show ?case by (simp add: css_run_def css_init_def)
next
  case (snoc op ops)
  obtain s log where run: "css_run env ops = (s, log)" by (cases "css_run env ops")
  from snoc run have keys: "map fst (cssToInject s) = rev (remdups (rev (List.map_filter inline_key ops)))"
    by simp
  have mem: "fst ` set (cssToInject s) = set (List.map_filter inline_key ops)"
    using arg_cong [OF keys, of set] by simp
  show ?case
  proof (cases op)
    case (DidFinishLoad t)
    then show ?thesis using keys run
      by (simp add: css_run_snoc map_filter_append)
  next
    case (Register r)
    show ?thesis
    proof (cases r)
      case (InjectCSS t css cb)
      with Register show ?thesis using keys run mem
        by (simp add: css_run_snoc map_filter_append
            injectCSS_maps map_set_keys)
    next
      case (InjectCSSAsFile t p cb)
      with Register show ?thesis using keys run
        by (simp add: css_run_snoc map_filter_append injectCSSAsFile_maps)
    qed
  qed
qed

lemma css_run_file_keys:
  "map fst (cssToInjectFile (fst (css_run env ops))) = rev (remdups (rev (List.map_filter file_key ops)))"
proof (induction ops rule: rev_induct)
  case Nil
  show ?case by (simp add: css_run_def css_init_def)
next
  case (snoc op ops)
  obtain s log where run: "css_run env ops = (s, log)" by (cases "css_run env ops")
  from snoc run have keys: "map fst (cssToInjectFile s) = rev (remdups (rev (List.map_filter file_key ops)))"
    by simp
  have mem: "fst ` set (cssToInjectFile s) = set (List.map_filter file_key ops)"
    using arg_cong [OF keys, of set] by simp
  show ?case
  proof (cases op)
    case (DidFinishLoad t)
    then show ?thesis using keys run
      by (simp add: css_run_snoc map_filter_append)
  next
    case (Register r)
    show ?thesis
    proof (cases r)
      case (InjectCSS t css cb)
      with Register show ?thesis using keys run
        by (simp add: css_run_snoc map_filter_append injectCSS_maps)
    next
      case (InjectCSSAsFile t p cb)
      with Register show ?thesis using keys run mem
        by (simp add: css_run_snoc map_filter_append
            injectCSSAsFile_maps map_set_keys)
    qed
  qed
qed

lemma on_did_finish_load_calls:
  "insertCalls (on_did_finish_load env w s) =
      map (\<lambda>css. (w, InlineCSS css, css)) (map fst (cssToInject s)) @
      List.map_filter (\<lambda>p. map_option (\<lambda>text. (w, CSSFile p, text)) (readFileSync env p))
        (map fst (cssToInjectFile s))"
proof -
  have a: "map (\<lambda>(src, text, callback). (w, src, text)) (inline_jobs m)
      = map (\<lambda>css. (w, InlineCSS css, css)) (map fst m)" for m
    by (induction m) (auto simp: inline_jobs_def)
  have b: "map (\<lambda>(src, text, callback). (w, src, text)) (file_jobs env m)
      = List.map_filter (\<lambda>p. map_option (\<lambda>text. (w, CSSFile p, text)) (readFileSync env p)) (map fst m)" for m
    by (induction m) (auto simp: file_jobs_def split: option.splits)
  show ?thesis by (simp add: on_did_finish_load_def Let_def a b)
qed

text \<open>
  C7, as the code has it. After any history, the listener on \<open>w\<close> calls
  \<^verbatim>\<open>insertCSS\<close> first for every inline entry, then for every file-based entry
  whose file can be read. Within each group the order is that in which the keys
  were first registered: the keys of the history with every repetition after the
  first removed (\<open>remdups\<close> keeps the last occurrence of each element, so it is
  applied to the reversed list). A file-based entry therefore comes after every
  inline entry, whichever was registered first.
\<close>

theorem css_application_order:
  "insertCalls (on_did_finish_load env w (fst (css_run env ops))) =
      map (\<lambda>css. (w, InlineCSS css, css)) (rev (remdups (rev (List.map_filter inline_key ops)))) @
      List.map_filter (\<lambda>p. map_option (\<lambda>text. (w, CSSFile p, text)) (readFileSync env p))
        (rev (remdups (rev (List.map_filter file_key ops))))"
  by (simp only: on_did_finish_load_calls css_run_inline_keys css_run_file_keys)

theorem css_application_order_witness:
  "insertCalls (on_did_finish_load css_env_example 0 (fst (css_run css_env_example
      [Register (InjectCSSAsFile 0 ''a.css'' None), Register (InjectCSS 0 ''b{}'' None),
       Register (InjectCSS 0 ''c{}'' None), Register (InjectCSS 0 ''b{}'' (Some 1))])))
   = [(0, InlineCSS ''b{}'', ''b{}''), (0, InlineCSS ''c{}'', ''c{}''), (0, CSSFile ''a.css'', ''a{}'')]"
  using css_application_order [of css_env_example 0
      "[Register (InjectCSSAsFile 0 ''a.css'' None), Register (InjectCSS 0 ''b{}'' None),
       Register (InjectCSS 0 ''c{}'' None), Register (InjectCSS 0 ''b{}'' (Some 1))]"]
  by (simp add: css_env_example_def)

text \<open>
  A stylesheet file registered before an inline stylesheet is applied after it.
\<close>

theorem css_file_registered_first_applied_last:
  "insertCalls (snd (css_run css_env_example
      [Register (InjectCSSAsFile 0 ''a.css'' None), Register (InjectCSS 0 ''b{}'' None),
       DidFinishLoad 0]))
   = [(0, InlineCSS ''b{}'', ''b{}''), (0, CSSFile ''a.css'', ''a{}'')]"
  by (simp add: css_run_def css_init_def injectCSS_def injectCSSAsFile_def setupCssInjection_def
      did_finish_load_def no_result_def append_result_def on_did_finish_load_def
      inline_jobs_def file_jobs_def css_env_example_def)

subsection \<open>CSS injection: entries are keyed by content\<close>

lemma pending_callback_register:
  "pending_callback (register r s) src =
     (if reg_source r = src then Some (reg_callback r) else pending_callback s src)"
  by (cases r; cases src)
     (auto simp: pending_callback_def injectCSS_maps injectCSSAsFile_maps map_set_map_of)

lemma pending_callback_fold:
  "src \<notin> reg_source ` set (List.map_filter registration_of ops) \<Longrightarrow>
   pending_callback (fst (fold (css_step env) ops (s, log))) src = pending_callback s src"
proof (induction ops arbitrary: s log)
  case Nil
  show ?case by simp
next
  case (Cons op ops)
  show ?case
  proof (cases op)
    case (Register r)
    with Cons.prems have "reg_source r \<noteq> src"
      and "src \<notin> reg_source ` set (List.map_filter registration_of ops)"
      by auto
    with Register Cons.IH show ?thesis by (simp add: pending_callback_register)
  next
    case (DidFinishLoad t)
    with Cons show ?thesis by simp
  qed
qed

lemma filter_key_distinct:
  "distinct (map fst m) \<Longrightarrow> map_of m k = Some v \<Longrightarrow> filter (\<lambda>e. fst e = k) m = [(k, v)]"
proof (induction m)
  case Nil
  then show ?case by simp
next
  case (Cons e m)
  obtain k' v' where e: "e = (k', v')" by (cases e)
  show ?case
  proof (cases "k' = k")
    case True
    with Cons.prems e have "v' = v" and "k \<notin> fst ` set m" by auto
    then have "filter (\<lambda>e. fst e = k) m = []"
      by (auto simp: filter_empty_conv)
    with True e \<open>v' = v\<close> show ?thesis by simp
  next
    case False
    with Cons e show ?thesis by simp
  qed
qed

lemma inline_jobs_filter:
  "filter (\<lambda>j. fst j = InlineCSS k) (inline_jobs m)
     = map (\<lambda>(css, callback). (InlineCSS css, css, callback)) (filter (\<lambda>e. fst e = k) m)"
  "filter (\<lambda>j. fst j = CSSFile p) (inline_jobs m) = []"
  by (induction m) (auto simp: inline_jobs_def)

lemma file_jobs_filter:
  "filter (\<lambda>j. fst j = CSSFile p) (file_jobs env m) = file_jobs env (filter (\<lambda>e. fst e = p) m)"
  "filter (\<lambda>j. fst j = InlineCSS k) (file_jobs env m) = []"
  by (induction m) (auto simp: file_jobs_def split: option.splits)

lemma jobs_of_source:
  assumes "distinct (map fst (cssToInject s))" and "distinct (map fst (cssToInjectFile s))"
    and "pending_callback s src = Some cb" and "source_text env src = Some x"
  shows "filter (\<lambda>j. fst j = src) (inline_jobs (cssToInject s) @ file_jobs env (cssToInjectFile s))
     = [(src, x, cb)]"
proof (cases src)
  case (InlineCSS k)
  with assms have "filter (\<lambda>e. fst e = k) (cssToInject s) = [(k, cb)]" and "x = k"
    by (auto simp: pending_callback_def intro: filter_key_distinct)
  with InlineCSS show ?thesis by (simp add: inline_jobs_filter file_jobs_filter)
next
  case (CSSFile p)
  with assms have "filter (\<lambda>e. fst e = p) (cssToInjectFile s) = [(p, cb)]"
    and "readFileSync env p = Some x"
    by (auto simp: pending_callback_def intro: filter_key_distinct)
  with CSSFile show ?thesis
    by (simp add: inline_jobs_filter file_jobs_filter)
       (simp add: file_jobs_def)
qed

lemma filter_map_filter_source:
  "(\<And>j c. g j = Some c \<Longrightarrow> fst c = fst j) \<Longrightarrow>
   filter (\<lambda>c. fst c = src) (List.map_filter g jobs)
     = List.map_filter g (filter (\<lambda>j. fst j = src) jobs)"
  by (induction jobs) (auto simp: split: option.splits)

lemma handler_of_source:
  assumes "distinct (map fst (cssToInject s))" and "distinct (map fst (cssToInjectFile s))"
    and "pending_callback s src = Some cb" and "source_text env src = Some x"
  shows "filter (\<lambda>c. fst (snd c) = src) (insertCalls (on_did_finish_load env w s)) = [(w, src, x)]"
    and "filter (\<lambda>c. fst c = src) (callbacksRun (on_did_finish_load env w s))
      = (case cb of None \<Rightarrow> []
         | Some c \<Rightarrow> if insertCSS_resolves env w x then [(src, c)] else [])"
proof -
  let ?jobs = "inline_jobs (cssToInject s) @ file_jobs env (cssToInjectFile s)"
  note one = jobs_of_source [OF assms]
  have "filter (\<lambda>c. fst (snd c) = src) (map (\<lambda>(src, text, callback). (w, src, text)) ?jobs)
      = map (\<lambda>(src, text, callback). (w, src, text)) (filter (\<lambda>j. fst j = src) ?jobs)"
    by (simp add: filter_map comp_def case_prod_beta)
  with one show "filter (\<lambda>c. fst (snd c) = src) (insertCalls (on_did_finish_load env w s)) = [(w, src, x)]"
    by (simp add: on_did_finish_load_def)
  have "filter (\<lambda>c. fst c = src) (List.map_filter (job_callback env w) ?jobs)
      = List.map_filter (job_callback env w) (filter (\<lambda>j. fst j = src) ?jobs)"
    by (rule filter_map_filter_source)
       (auto simp: job_callback_def split: option.splits if_splits)
  with one show "filter (\<lambda>c. fst c = src) (callbacksRun (on_did_finish_load env w s))
      = (case cb of None \<Rightarrow> []
         | Some c \<Rightarrow> if insertCSS_resolves env w x then [(src, c)] else [])"
    by (simp add: on_did_finish_load_def job_callback_def split: option.splits)
qed

lemma register_twice_keys:
  "reg_source r2 = reg_source r1 \<Longrightarrow>
   map fst (cssToInject (register r2 (register r1 s))) = map fst (cssToInject (register r1 s))
   \<and> map fst (cssToInjectFile (register r2 (register r1 s))) = map fst (cssToInjectFile (register r1 s))"
  by (cases r1; cases r2)
     (auto simp: injectCSS_maps injectCSSAsFile_maps map_set_keys intro: image_eqI [OF _ map_set_mem])

text \<open>
  C10. After any history, the same inline text (or the same file path) is
  registered twice, with any targets and callbacks. The second registration adds no
  key to either map, and the entry then holds the callback of the second
  registration. After any further steps that do not register that text (or path)
  again, there is one observed target \<open>w\<close>, and every load event on \<open>w\<close> makes
  exactly one \<^verbatim>\<open>insertCSS\<close> call for the entry and runs, for the entry, only the
  callback of the second registration if there is one and the insertion
  succeeds. For a file path, the file is taken to be readable.
\<close>

theorem css_entries_keyed_by_content:
  assumes "reg_source r2 = reg_source r1"
    and "reg_source r1 \<notin> reg_source ` set (List.map_filter registration_of post)"
    and "source_text env (reg_source r1) = Some x"
  shows "map fst (cssToInject (fst (css_run env (ops @ [Register r1, Register r2]))))
           = map fst (cssToInject (fst (css_run env (ops @ [Register r1]))))
       \<and> map fst (cssToInjectFile (fst (css_run env (ops @ [Register r1, Register r2]))))
           = map fst (cssToInjectFile (fst (css_run env (ops @ [Register r1]))))
       \<and> pending_callback (fst (css_run env (ops @ [Register r1, Register r2]))) (reg_source r1)
           = Some (reg_callback r2)
       \<and> (\<exists>w. listeners (fst (css_run env (ops @ [Register r1, Register r2] @ post))) = [w]
            \<and> filter (\<lambda>c. fst (snd c) = reg_source r1)
                 (insertCalls (did_finish_load env w
                    (fst (css_run env (ops @ [Register r1, Register r2] @ post)))))
                = [(w, reg_source r1, x)]
            \<and> filter (\<lambda>c. fst c = reg_source r1)
                 (callbacksRun (did_finish_load env w
                    (fst (css_run env (ops @ [Register r1, Register r2] @ post)))))
                = (case reg_callback r2 of None \<Rightarrow> []
                   | Some c \<Rightarrow> if insertCSS_resolves env w x then [(reg_source r1, c)] else []))"
proof -
  let ?all = "ops @ [Register r1, Register r2] @ post"
  let ?S = "fst (css_run env ?all)"
  obtain s0 log0 where run0: "css_run env ops = (s0, log0)" by (cases "css_run env ops")
  have two: "fst (css_run env (ops @ [Register r1, Register r2])) = register r2 (register r1 s0)"
    and one: "fst (css_run env (ops @ [Register r1])) = register r1 s0"
    using run0 by (simp_all add: css_run_def)
  have keys: "map fst (cssToInject (fst (css_run env (ops @ [Register r1, Register r2]))))
           = map fst (cssToInject (fst (css_run env (ops @ [Register r1]))))
       \<and> map fst (cssToInjectFile (fst (css_run env (ops @ [Register r1, Register r2]))))
           = map fst (cssToInjectFile (fst (css_run env (ops @ [Register r1]))))"
    using register_twice_keys [OF assms(1), of s0] by (simp only: one two)
  have stored: "pending_callback (fst (css_run env (ops @ [Register r1, Register r2]))) (reg_source r1)
           = Some (reg_callback r2)"
    using assms(1) by (simp only: two) (simp add: pending_callback_register)
  have "List.map_filter registration_of ?all \<noteq> []"
    by (simp add: map_filter_append)
  then obtain r rest where "List.map_filter registration_of ?all = r # rest"
    by (cases "List.map_filter registration_of ?all") auto
  then have lis: "listeners ?S = [reg_target r]" by (rule css_run_listeners)
  have d1: "distinct (map fst (cssToInject ?S))" by (simp only: css_run_inline_keys) simp
  have d2: "distinct (map fst (cssToInjectFile ?S))" by (simp only: css_run_file_keys) simp
  have "css_run env ?all
      = fold (css_step env) post (register r2 (register r1 s0), log0)"
    using run0 by (simp add: css_run_def)
  then have "pending_callback ?S (reg_source r1)
      = pending_callback (register r2 (register r1 s0)) (reg_source r1)"
    using pending_callback_fold [OF assms(2)] by simp
  then have cb: "pending_callback ?S (reg_source r1) = Some (reg_callback r2)"
    using assms(1) by (simp add: pending_callback_register)
  note h = handler_of_source [OF d1 d2 cb assms(3), of "reg_target r"]
  have dfl: "did_finish_load env (reg_target r) ?S = on_did_finish_load env (reg_target r) ?S"
    using lis by (simp add: did_finish_load_single)
  show ?thesis
    using keys stored lis h unfolding dfl [symmetric] by blast
qed

theorem css_entries_keyed_by_content_witness:
  "cssToInject (fst (css_run css_env_example
       [Register (InjectCSS 0 ''a{}'' (Some 1)), Register (InjectCSS 0 ''a{}'' (Some 2)),
        Register (InjectCSS 0 ''b{}'' (Some 3))]))
     = [(''a{}'', Some 2), (''b{}'', Some 3)]
   \<and> did_finish_load css_env_example 0 (fst (css_run css_env_example
       [Register (InjectCSS 0 ''a{}'' (Some 1)), Register (InjectCSS 0 ''a{}'' (Some 2)),
        Register (InjectCSS 0 ''b{}'' (Some 3))]))
     = \<lparr> insertCalls = [(0, InlineCSS ''a{}'', ''a{}''), (0, InlineCSS ''b{}'', ''b{}'')],
         callbacksRun = [(InlineCSS ''a{}'', 2), (InlineCSS ''b{}'', 3)] \<rparr>"
proof -
  have h: "reg_source (InjectCSS 0 ''a{}'' (Some 2)) = reg_source (InjectCSS 0 ''a{}'' (Some 1))"
    "reg_source (InjectCSS 0 ''a{}'' (Some 1))
       \<notin> reg_source ` set (List.map_filter registration_of [Register (InjectCSS 0 ''b{}'' (Some 3))])"
    "source_text css_env_example (reg_source (InjectCSS 0 ''a{}'' (Some 1))) = Some ''a{}''"
    by simp_all
  show ?thesis
    using css_entries_keyed_by_content [OF h, of "[]"]
    by (simp add: css_run_def css_init_def injectCSS_def injectCSSAsFile_def setupCssInjection_def
      did_finish_load_def no_result_def append_result_def on_did_finish_load_def
      inline_jobs_def file_jobs_def job_callback_def css_env_example_def)
qed

subsection \<open>CSS injection: cumulative registration\<close>

lemma replicate_loads:
  "fold (css_step env) (replicate n (DidFinishLoad t)) (s, log) =
     (s, \<lparr> insertCalls = insertCalls log @ concat (replicate n (insertCalls (did_finish_load env t s))),
           callbacksRun = callbacksRun log @ concat (replicate n (callbacksRun (did_finish_load env t s))) \<rparr>)"
proof (induction n arbitrary: log)
  case 0
  show ?case by simp
next
  case (Suc n)
  show ?case by (simp add: Suc append_result_def del: fold_replicate)
qed

lemma two_registrations_calls:
  assumes "reg_target r1 = t" "reg_target r2 = t" "reg_source r1 \<noteq> reg_source r2"
    "source_text env (reg_source r1) = Some x1" "source_text env (reg_source r2) = Some x2"
  shows "insertCalls (did_finish_load env t (register r2 (register r1 css_init)))
           = [(t, reg_source r1, x1), (t, reg_source r2, x2)]
       \<or> insertCalls (did_finish_load env t (register r2 (register r1 css_init)))
           = [(t, reg_source r2, x2), (t, reg_source r1, x1)]"
  using assms
  by (cases r1; cases r2)
     (auto simp: css_init_def injectCSS_def injectCSSAsFile_def setupCssInjection_def
      did_finish_load_def no_result_def append_result_def on_did_finish_load_def
      inline_jobs_def file_jobs_def)

lemma registered_is_pending:
  "r \<in> set (List.map_filter registration_of ops) \<Longrightarrow>
   \<exists>cb. pending_callback (fst (css_run env ops)) (reg_source r) = Some cb"
proof (induction ops rule: rev_induct)
  case Nil
  then show ?case by simp
next
  case (snoc op ops)
  obtain s log where run: "css_run env ops = (s, log)" by (cases "css_run env ops")
  show ?case
  proof (cases op)
    case (DidFinishLoad t)
    with snoc run show ?thesis by (simp add: css_run_snoc map_filter_append)
  next
    case (Register r')
    show ?thesis
    proof (cases "reg_source r' = reg_source r")
      case True
      with Register run show ?thesis by (simp add: css_run_snoc pending_callback_register)
    next
      case False
      with Register snoc.prems have "r \<in> set (List.map_filter registration_of ops)"
        by (auto simp: map_filter_append)
      with snoc.IH run False Register show ?thesis
        by (simp add: css_run_snoc pending_callback_register)
    qed
  qed
qed

lemma observed_load_applies:
  assumes first: "List.map_filter registration_of ops = r0 # rest"
    and mem: "r \<in> set (r0 # rest)"
    and readable: "source_text env (reg_source r) = Some x"
  shows "filter (\<lambda>c. fst (snd c) = reg_source r)
           (insertCalls (did_finish_load env (reg_target r0) (fst (css_run env ops))))
         = [(reg_target r0, reg_source r, x)]"
proof -
  let ?S = "fst (css_run env ops)"
  have lis: "listeners ?S = [reg_target r0]" using first by (rule css_run_listeners)
  have d1: "distinct (map fst (cssToInject ?S))" by (simp only: css_run_inline_keys) simp
  have d2: "distinct (map fst (cssToInjectFile ?S))" by (simp only: css_run_file_keys) simp
  from mem first have "r \<in> set (List.map_filter registration_of ops)" by simp
  then obtain cb where cb: "pending_callback ?S (reg_source r) = Some cb"
    using registered_is_pending by blast
  show ?thesis
    using handler_of_source(1) [OF d1 d2 cb readable, of "reg_target r0"] lis
    by (simp add: did_finish_load_single)
qed

lemma css_run_loads:
  "css_run env (ops @ replicate n (DidFinishLoad t)) =
     (fst (css_run env ops),
      \<lparr> insertCalls = insertCalls (snd (css_run env ops))
           @ concat (replicate n (insertCalls (did_finish_load env t (fst (css_run env ops))))),
        callbacksRun = callbacksRun (snd (css_run env ops))
           @ concat (replicate n (callbacksRun (did_finish_load env t (fst (css_run env ops))))) \<rparr>)"
proof -
  obtain s log where run: "css_run env ops = (s, log)" by (cases "css_run env ops")
  then have "css_run env (ops @ replicate n (DidFinishLoad t))
      = fold (css_step env) (replicate n (DidFinishLoad t)) (s, log)"
    by (simp add: css_run_def del: fold_replicate)
  then show ?thesis using run by (simp add: replicate_loads del: fold_replicate)
qed

text \<open>
  C3, as the code has it. Two distinct stylesheets (each inline or file-based, a
  file-based one being readable) are registered for the same target \<open>t\<close>. If the
  first registration of the history was for \<open>t\<close>, so that the observer sits on
  \<open>t\<close>, then every load event on \<open>t\<close> makes exactly one \<^verbatim>\<open>insertCSS\<close> call for
  each of the two; \<open>n\<close> successive load events add \<open>n\<close> times the calls of one
  event and leave the state as it was, so no entry is consumed. If the two
  registrations are the whole history, one load event makes exactly the two calls
  and two successive load events make four.
\<close>

theorem css_registration_cumulative:
  assumes "reg_target r1 = t" and "reg_target r2 = t" and "reg_source r1 \<noteq> reg_source r2"
    and "source_text env (reg_source r1) = Some x1" and "source_text env (reg_source r2) = Some x2"
  shows "(List.map_filter registration_of ops = r0 # rest \<and> reg_target r0 = t
            \<and> r1 \<in> set (r0 # rest) \<and> r2 \<in> set (r0 # rest) \<longrightarrow>
          filter (\<lambda>c. fst (snd c) = reg_source r1)
              (insertCalls (did_finish_load env t (fst (css_run env ops))))
            = [(t, reg_source r1, x1)]
          \<and> filter (\<lambda>c. fst (snd c) = reg_source r2)
              (insertCalls (did_finish_load env t (fst (css_run env ops))))
            = [(t, reg_source r2, x2)]
          \<and> (\<forall>n. fst (css_run env (ops @ replicate n (DidFinishLoad t))) = fst (css_run env ops)
               \<and> insertCalls (snd (css_run env (ops @ replicate n (DidFinishLoad t))))
                   = insertCalls (snd (css_run env ops))
                     @ concat (replicate n
                         (insertCalls (did_finish_load env t (fst (css_run env ops)))))))
    \<and> (insertCalls (did_finish_load env t (fst (css_run env [Register r1, Register r2])))
            = [(t, reg_source r1, x1), (t, reg_source r2, x2)]
        \<or> insertCalls (did_finish_load env t (fst (css_run env [Register r1, Register r2])))
            = [(t, reg_source r2, x2), (t, reg_source r1, x1)])
    \<and> length (insertCalls (snd (css_run env
          [Register r1, Register r2, DidFinishLoad t, DidFinishLoad t]))) = 4"
proof -
  let ?s = "register r2 (register r1 css_init)"
  have s: "fst (css_run env [Register r1, Register r2]) = ?s"
    by (simp add: css_run_def)
  note two = two_registrations_calls [OF assms]
  have "insertCalls (snd (css_run env [Register r1, Register r2, DidFinishLoad t, DidFinishLoad t]))
      = insertCalls (did_finish_load env t ?s) @ insertCalls (did_finish_load env t ?s)"
    by (simp add: css_run_def append_result_def no_result_def)
  with two have four: "length (insertCalls (snd (css_run env
          [Register r1, Register r2, DidFinishLoad t, DidFinishLoad t]))) = 4"
    by auto
  have general: "filter (\<lambda>c. fst (snd c) = reg_source r1)
              (insertCalls (did_finish_load env t (fst (css_run env ops))))
            = [(t, reg_source r1, x1)]
          \<and> filter (\<lambda>c. fst (snd c) = reg_source r2)
              (insertCalls (did_finish_load env t (fst (css_run env ops))))
            = [(t, reg_source r2, x2)]"
    if "List.map_filter registration_of ops = r0 # rest" "reg_target r0 = t"
       "r1 \<in> set (r0 # rest)" "r2 \<in> set (r0 # rest)"
    using observed_load_applies [OF that(1) that(3) assms(4)]
      observed_load_applies [OF that(1) that(4) assms(5)] that(2)
    by simp
  have loads: "fst (css_run env (ops @ replicate n (DidFinishLoad t))) = fst (css_run env ops)
               \<and> insertCalls (snd (css_run env (ops @ replicate n (DidFinishLoad t))))
                   = insertCalls (snd (css_run env ops))
                     @ concat (replicate n
                         (insertCalls (did_finish_load env t (fst (css_run env ops)))))" for n
    by (simp add: css_run_loads)
  show ?thesis
    using two four general loads unfolding s by blast
qed

theorem css_registration_cumulative_witness:
  "insertCalls (snd (css_run css_env_example
      [Register (InjectCSS 0 ''z{}'' None), Register (InjectCSS 0 ''a{}'' None),
       Register (InjectCSSAsFile 0 ''a.css'' (Some 7)), DidFinishLoad 0, DidFinishLoad 0]))
   = [(0, InlineCSS ''z{}'', ''z{}''), (0, InlineCSS ''a{}'', ''a{}''), (0, CSSFile ''a.css'', ''a{}''),
      (0, InlineCSS ''z{}'', ''z{}''), (0, InlineCSS ''a{}'', ''a{}''), (0, CSSFile ''a.css'', ''a{}'')]
   \<and> length (insertCalls (snd (css_run css_env_example
      [Register (InjectCSS 0 ''a{}'' None), Register (InjectCSSAsFile 0 ''a.css'' (Some 7)),
       DidFinishLoad 0, DidFinishLoad 0]))) = 4"
proof -
  have h: "reg_target (InjectCSS 0 ''a{}'' None) = 0"
     "reg_target (InjectCSSAsFile 0 ''a.css'' (Some 7)) = 0"
     "reg_source (InjectCSS 0 ''a{}'' None) \<noteq> reg_source (InjectCSSAsFile 0 ''a.css'' (Some 7))"
     "source_text css_env_example (reg_source (InjectCSS 0 ''a{}'' None)) = Some ''a{}''"
     "source_text css_env_example (reg_source (InjectCSSAsFile 0 ''a.css'' (Some 7))) = Some ''a{}''"
    by (simp_all add: css_env_example_def)
  have g: "List.map_filter registration_of
       [Register (InjectCSS 0 ''z{}'' None), Register (InjectCSS 0 ''a{}'' None),
        Register (InjectCSSAsFile 0 ''a.css'' (Some 7))]
      = InjectCSS 0 ''z{}'' None # [InjectCSS 0 ''a{}'' None, InjectCSSAsFile 0 ''a.css'' (Some 7)]
    \<and> reg_target (InjectCSS 0 ''z{}'' None) = 0
    \<and> InjectCSS 0 ''a{}'' None
        \<in> set (InjectCSS 0 ''z{}'' None # [InjectCSS 0 ''a{}'' None, InjectCSSAsFile 0 ''a.css'' (Some 7)])
    \<and> InjectCSSAsFile 0 ''a.css'' (Some 7)
        \<in> set (InjectCSS 0 ''z{}'' None # [InjectCSS 0 ''a{}'' None, InjectCSSAsFile 0 ''a.css'' (Some 7)])"
    by simp
  show ?thesis
    using css_registration_cumulative [OF h, of
        "[Register (InjectCSS 0 ''z{}'' None), Register (InjectCSS 0 ''a{}'' None),
          Register (InjectCSSAsFile 0 ''a.css'' (Some 7))]"
        "InjectCSS 0 ''z{}'' None" "[InjectCSS 0 ''a{}'' None, InjectCSSAsFile 0 ''a.css'' (Some 7)]"] g
    by (simp add: css_run_def css_init_def injectCSS_def injectCSSAsFile_def setupCssInjection_def
      did_finish_load_def no_result_def append_result_def on_did_finish_load_def
      inline_jobs_def file_jobs_def css_env_example_def)
qed

text \<open>
  A stylesheet is registered for target 1 first, then two for target 0: two load
  events on target 0 make no \<^verbatim>\<open>insertCSS\<close> call. And with an earlier
  registration for target 0 itself, the two load events make six calls.
\<close>

theorem css_other_target_registered_first:
  "insertCalls (snd (css_run css_env_example
      [Register (InjectCSS 1 ''z{}'' None), Register (InjectCSS 0 ''a{}'' None),
       Register (InjectCSS 0 ''b{}'' None), DidFinishLoad 0, DidFinishLoad 0])) = []
   \<and> length (insertCalls (snd (css_run css_env_example
      [Register (InjectCSS 0 ''z{}'' None), Register (InjectCSS 0 ''a{}'' None),
       Register (InjectCSS 0 ''b{}'' None), DidFinishLoad 0, DidFinishLoad 0]))) = 6"
  by (simp add: css_run_def css_init_def injectCSS_def setupCssInjection_def
      did_finish_load_def no_result_def append_result_def on_did_finish_load_def
      inline_jobs_def file_jobs_def)

subsection \<open>The configuration store\<close>

lemma config_get_set:
  "config_get (config_set p v c) q = (if q = p then v else config_get c q)"
  by (simp add: config_set_def config_get_def Let_def)

lemma config_get_setMenuOption:
  "config_get (config_setMenuOption p v c) q = (if q = p then v else config_get c q)"
  by (simp add: config_setMenuOption_def config_get_set)

lemma config_update_config: "config (update_config f w) = f (config w)"
  by (simp add: update_config_def)

subsection \<open>The tray radio group\<close>

lemma options_submenu_parts:
  "submenu_item ''Tray'' (tray_submenu c) \<in> set (options_submenu env c)"
  "submenu_item ''Advanced options'' (advanced_options_submenu env c) \<in> set (options_submenu env c)"
  by (simp_all add: options_submenu_def)

lemma mainMenuTemplate_options:
  "mainMenuTemplate env c ! 1 = submenu_item ''Options'' (options_submenu env c)"
  by (simp add: mainMenuTemplate_def)

text \<open>
  C4. The Tray submenu is part of the Options menu. Whatever the configuration
  holds, its radio items are the
  three items Disabled, Enabled + app visible and Enabled + app hidden, and exactly
  one of them is built with \<^verbatim>\<open>checked\<close> true. The handler of each sets both
  flags: Disabled leaves \<^verbatim>\<open>options.tray\<close> false and \<^verbatim>\<open>options.appVisible\<close> true,
  Enabled + app visible leaves both true, and Enabled + app hidden leaves
  \<^verbatim>\<open>options.tray\<close> true and \<^verbatim>\<open>options.appVisible\<close> false.
\<close>

theorem tray_radio_group:
  "submenu_item ''Tray'' (tray_submenu c) \<in> set (options_submenu env c)
   \<and> filter (\<lambda>i. item_type i = Some Radio) (tray_submenu c) =
     [ radio ''Disabled'' (\<not> truthy (config_get c ''options.tray'')) TrayDisabledClick,
       radio ''Enabled + app visible''
         (truthy (config_get c ''options.tray'') \<and> truthy (config_get c ''options.appVisible''))
         TrayVisibleClick,
       radio ''Enabled + app hidden''
         (truthy (config_get c ''options.tray'') \<and> \<not> truthy (config_get c ''options.appVisible''))
         TrayHiddenClick ]
   \<and> length (filter (\<lambda>i. item_checked i = Some True)
        (filter (\<lambda>i. item_type i = Some Radio) (tray_submenu c))) = 1
   \<and> config_get (config (snd (run_click env TrayDisabledClick (checked, w)))) ''options.tray'' = JBool False
   \<and> config_get (config (snd (run_click env TrayDisabledClick (checked, w)))) ''options.appVisible'' = JBool True
   \<and> config_get (config (snd (run_click env TrayVisibleClick (checked, w)))) ''options.tray'' = JBool True
   \<and> config_get (config (snd (run_click env TrayVisibleClick (checked, w)))) ''options.appVisible'' = JBool True
   \<and> config_get (config (snd (run_click env TrayHiddenClick (checked, w)))) ''options.tray'' = JBool True
   \<and> config_get (config (snd (run_click env TrayHiddenClick (checked, w)))) ''options.appVisible'' = JBool False"
  by (simp add: options_submenu_parts)
     (simp add: tray_submenu_def radio_def separator_def option_checkbox_def checkbox_def
      config_update_config config_get_setMenuOption)

theorem tray_radio_group_witness:
  "map item_checked (filter (\<lambda>i. item_type i = Some Radio) (tray_submenu config_example))
     = [Some True, Some False, Some False]
   \<and> map item_checked (filter (\<lambda>i. item_type i = Some Radio)
        (tray_submenu (config (snd (user_click menu_env_example (tray_submenu config_example ! 2)
           world_example)))))
     = [Some False, Some False, Some True]"
  using tray_radio_group [of config_example menu_env_example True
      "world_example"]
    tray_radio_group [of "config (snd (run_click menu_env_example TrayHiddenClick
        (True, world_example)))" menu_env_example True
      "world_example"]
  by (simp add: radio_def user_click_def tray_submenu_def config_get_def config_example_def
      world_example_def defaultConfig_paths_def defaultConfig_options_def)

subsection \<open>The proxy prompt\<close>

text \<open>
  C5. The proxy handler has three outcomes. When the prompt is cancelled, nothing
  is written (the world is unchanged) and \<^verbatim>\<open>item.checked\<close> is negated, so that a
  click on the Proxy item of the menu ends with the checkbox as it was built, the
  click having flipped it before. When the empty string is submitted,
  \<^verbatim>\<open>options.proxy\<close> becomes the empty string and the checkbox ends unchecked. When
  a non-empty string is submitted, \<^verbatim>\<open>options.proxy\<close> becomes that string and the
  checkbox ends checked.
\<close>

theorem setProxy_outcomes:
  "(promptOutput env = None \<longrightarrow>
      run_click env SetProxyClick (checked, w) = (\<not> checked, w)
      \<and> user_click env (advanced_options_submenu env (config w) ! 0) w
          = (truthy (config_get (config w) ''options.proxy''), w))
   \<and> (promptOutput env = Some [] \<longrightarrow>
      fst (run_click env SetProxyClick (checked, w)) = False
      \<and> config_get (config (snd (run_click env SetProxyClick (checked, w)))) ''options.proxy'' = JStr [])
   \<and> (promptOutput env = Some output \<and> output \<noteq> [] \<longrightarrow>
      fst (run_click env SetProxyClick (checked, w)) = True
      \<and> config_get (config (snd (run_click env SetProxyClick (checked, w)))) ''options.proxy''
          = JStr output)"
  by (simp add: setProxy_def config_update_config config_get_setMenuOption user_click_def
      advanced_options_submenu_def checkbox_def)

theorem setProxy_outcomes_witness:
  "run_click (menu_env_example\<lparr> promptOutput := None \<rparr>) SetProxyClick
      (True, world_example)
     = (False, world_example)
   \<and> fst (run_click (menu_env_example\<lparr> promptOutput := Some [] \<rparr>) SetProxyClick
      (True, world_example)) = False
   \<and> config_get (config (snd (run_click
        (menu_env_example\<lparr> promptOutput := Some ''socks5://127.0.0.1:9999'' \<rparr>) SetProxyClick
        (False, world_example)))) ''options.proxy''
     = JStr ''socks5://127.0.0.1:9999''
   \<and> fst (run_click
        (menu_env_example\<lparr> promptOutput := Some ''socks5://127.0.0.1:9999'' \<rparr>) SetProxyClick
        (False, world_example)) = True"
  using setProxy_outcomes [of "menu_env_example\<lparr> promptOutput := None \<rparr>" True
      "world_example" "''x''"]
    setProxy_outcomes [of "menu_env_example\<lparr> promptOutput := Some [] \<rparr>" True
      "world_example" "''x''"]
    setProxy_outcomes [of "menu_env_example\<lparr> promptOutput := Some ''socks5://127.0.0.1:9999'' \<rparr>"
      False "world_example" "''socks5://127.0.0.1:9999''"]
  by simp

subsection \<open>The Plugins submenu\<close>

lemma refreshMenu_config: "config (refreshMenu env w) = config w"
  by (simp add: refreshMenu_def do_effects_def)

lemma plugins_isEnabled_enable: "plugins_isEnabled (plugins_enable plugin c) plugin"
  by (simp add: plugins_isEnabled_def plugins_enable_def config_get_set)

lemma plugins_isEnabled_disable: "\<not> plugins_isEnabled (plugins_disable plugin c) plugin"
  by (simp add: plugins_isEnabled_def plugins_disable_def config_get_set)

lemma plugin_click_config:
  "plugins_isEnabled (config (snd (run_click env (PluginEnabledClick plugin hasSubmenu hasRefreshMenu)
      (checked, w)))) plugin = checked"
  by (simp add: Let_def refreshMenu_config config_update_config plugins_isEnabled_enable
      plugins_isEnabled_disable)

text \<open>
  C6, as the code has it. The entry of a plugin is a submenu (an Enabled checkbox,
  a separator, then the items the plugin contributes) exactly when the plugin has
  a menu module and is enabled. Otherwise it is a bare checkbox showing whether
  the plugin is enabled. The Plugins submenu is the list of these entries, one for
  each plugin name, in order. In both shapes the checkbox carries the handler of
  \<^verbatim>\<open>pluginEnabledMenu\<close>: a click leaves the plugin enabled exactly when the
  item is then checked, and with a menu module it also sets the application menu
  again.
\<close>

theorem plugin_menu_entry_shape:
  "plugin_menu_entry env c plugin =
     (if pluginMenuExists env plugin \<and> plugins_isEnabled c plugin
      then submenu_item (plugin_label plugin)
             ([checkbox ''Enabled'' True (PluginEnabledClick plugin True True), separator]
              @ getPluginMenu env plugin c)
      else checkbox (plugin_label plugin) (plugins_isEnabled c plugin)
             (PluginEnabledClick plugin (pluginMenuExists env plugin) (pluginMenuExists env plugin)))
   \<and> mainMenuTemplate env c ! 0
       = submenu_item ''Plugins'' (map (plugin_menu_entry env c) (getAllPlugins env))
   \<and> plugins_isEnabled (config (snd (run_click env
         (PluginEnabledClick plugin hasSubmenu hasRefreshMenu) (checked, w)))) plugin = checked
   \<and> effects (snd (run_click env (PluginEnabledClick plugin True True) (checked, w)))
       = effects w @ SetApplicationMenu # (if inAppMenuActive env then [SendRefreshMenu] else [])
   \<and> effects (snd (run_click env (PluginEnabledClick plugin False False) (checked, w)))
       = effects w"
proof -
  have shape: "plugin_menu_entry env c plugin =
     (if pluginMenuExists env plugin \<and> plugins_isEnabled c plugin
      then submenu_item (plugin_label plugin)
             ([checkbox ''Enabled'' True (PluginEnabledClick plugin True True), separator]
              @ getPluginMenu env plugin c)
      else checkbox (plugin_label plugin) (plugins_isEnabled c plugin)
             (PluginEnabledClick plugin (pluginMenuExists env plugin) (pluginMenuExists env plugin)))"
    by (auto simp: plugin_menu_entry_def pluginEnabledMenu_def plugin_label_def Let_def)
  have menu: "mainMenuTemplate env c ! 0
       = submenu_item ''Plugins'' (map (plugin_menu_entry env c) (getAllPlugins env))"
    by (simp add: mainMenuTemplate_def plugins_submenu_def)
  have rebuild: "effects (snd (run_click env (PluginEnabledClick plugin True True) (checked, w)))
       = effects w @ SetApplicationMenu # (if inAppMenuActive env then [SendRefreshMenu] else [])"
    by (simp add: refreshMenu_def do_effects_def update_config_def)
  have quiet: "effects (snd (run_click env (PluginEnabledClick plugin False False) (checked, w)))
       = effects w"
    by (simp add: update_config_def)
  show ?thesis
    using shape menu rebuild quiet
      plugin_click_config [of env plugin hasSubmenu hasRefreshMenu checked w]
    by blast
qed

theorem plugin_menu_entry_shape_witness:
  "map (plugin_menu_entry menu_env_example config_example) [''adblocker'', ''downloader'', ''navigation'']
     = [ submenu_item ''adblocker''
           [checkbox ''Enabled'' True (PluginEnabledClick ''adblocker'' True True), separator,
            action_item ''Plugin item'' (PluginHandler ''adblocker'' 0)],
         checkbox ''downloader'' False (PluginEnabledClick ''downloader'' True True),
         checkbox ''navigation'' True (PluginEnabledClick ''navigation'' False False) ]"
  using plugin_menu_entry_shape [of menu_env_example config_example "''adblocker''"]
    plugin_menu_entry_shape [of menu_env_example config_example "''downloader''"]
    plugin_menu_entry_shape [of menu_env_example config_example "''navigation''"]
  by (simp add: menu_env_example_def config_example_def plugins_isEnabled_def config_get_def
      plugin_enabled_path_def defaultConfig_paths_def defaultConfig_options_def
      defaultConfig_plugins_def plugin_label_def betaPlugins_def)

text \<open>
  A plugin with a menu module that is disabled gets a bare checkbox, not a submenu.
\<close>

theorem plugin_hook_present_bare_checkbox:
  "pluginMenuExists menu_env_example ''downloader''
   \<and> plugin_menu_entry menu_env_example config_example ''downloader''
       = checkbox ''downloader'' False (PluginEnabledClick ''downloader'' True True)
   \<and> item_submenu (plugin_menu_entry menu_env_example config_example ''downloader'') = None"
  by (simp add: menu_env_example_def config_example_def plugins_isEnabled_def config_get_def
      plugin_enabled_path_def defaultConfig_paths_def defaultConfig_options_def
      defaultConfig_plugins_def betaPlugins_def plugin_menu_entry_def pluginEnabledMenu_def
      plugin_label_def checkbox_def Let_def)

subsection \<open>Platform-dependent items\<close>

lemma plugin_menu_entry_role: "item_role (plugin_menu_entry env c plugin) = None"
  by (simp add: plugin_menu_entry_def pluginEnabledMenu_def Let_def checkbox_def submenu_item_def)

lemma plugin_entries_roles:
  "List.map_filter item_role (map (plugin_menu_entry env c) plugins) = []"
  by (induction plugins) (simp_all add: plugin_menu_entry_role)

lemma plugins_submenu_roles: "List.map_filter item_role (plugins_submenu env c) = []"
  by (simp add: plugins_submenu_def plugin_entries_roles)

lemma options_submenu_roles: "List.map_filter item_role (options_submenu env c) = []"
  by (simp add: options_submenu_def map_filter_append option_checkbox_def
      checkbox_def submenu_item_def separator_def)

text \<open>
  C8. In the built tree, the submenu of the Options menu (which holds the Advanced
  options) has a Hide menu item exactly on Windows and Linux and a
  Start at login item exactly on Windows and macOS. The DevTools entry of the
  Advanced options is an item with the handler written in the template on macOS
  and the item of role \<^verbatim>\<open>toggleDevTools\<close> on every other platform. The template
  handed to Electron is the main template, preceded on macOS, and only there, by
  the application-name menu, which is the only top-level menu that holds the
  \<^verbatim>\<open>about\<close> role. In each case the item is present in or absent from the list
  that is built; no item carries a visibility property.
\<close>

theorem platform_conditional_items:
  "mainMenuTemplate env c ! 1 = submenu_item ''Options'' (options_submenu env c)
   \<and> submenu_item ''Advanced options'' (advanced_options_submenu env c)
        \<in> set (options_submenu env c)
   \<and> (''Hide menu'' \<in> set (List.map_filter item_label (options_submenu env c))
       \<longleftrightarrow> is_windows (platform env) \<or> is_linux (platform env))
   \<and> (''Start at login'' \<in> set (List.map_filter item_label (options_submenu env c))
       \<longleftrightarrow> is_windows (platform env) \<or> is_macOS (platform env))
   \<and> advanced_options_submenu env c ! 6
       = (if is_macOS (platform env) then action_item ''Toggle DevTools'' ToggleDevToolsClick
          else role_item ''toggleDevTools'')
   \<and> (''toggleDevTools'' \<in> set (List.map_filter item_role (advanced_options_submenu env c))
       \<longleftrightarrow> \<not> is_macOS (platform env))
   \<and> (ToggleDevToolsClick \<in> set (List.map_filter item_click (advanced_options_submenu env c))
       \<longleftrightarrow> is_macOS (platform env))
   \<and> setApplicationMenu env c
       = (if is_macOS (platform env) then app_name_menu env # mainMenuTemplate env c
          else mainMenuTemplate env c)
   \<and> has_role_child ''about'' (app_name_menu env)
   \<and> ((\<exists>m \<in> set (setApplicationMenu env c). has_role_child ''about'' m)
       \<longleftrightarrow> is_macOS (platform env))"
proof -
  have hide: "''Hide menu'' \<in> set (List.map_filter item_label (options_submenu env c))
       \<longleftrightarrow> is_windows (platform env) \<or> is_linux (platform env)"
    by (simp add: options_submenu_def map_filter_append option_checkbox_def
        checkbox_def submenu_item_def separator_def)
  have login: "''Start at login'' \<in> set (List.map_filter item_label (options_submenu env c))
       \<longleftrightarrow> is_windows (platform env) \<or> is_macOS (platform env)"
    by (simp add: options_submenu_def map_filter_append option_checkbox_def
        checkbox_def submenu_item_def separator_def)
  have dev: "advanced_options_submenu env c ! 6
       = (if is_macOS (platform env) then action_item ''Toggle DevTools'' ToggleDevToolsClick
          else role_item ''toggleDevTools'')"
    by (simp add: advanced_options_submenu_def)
  have dev_role: "''toggleDevTools'' \<in> set (List.map_filter item_role (advanced_options_submenu env c))
       \<longleftrightarrow> \<not> is_macOS (platform env)"
    by (simp add: advanced_options_submenu_def option_checkbox_def
        checkbox_def action_item_def role_item_def separator_def)
  have dev_click: "ToggleDevToolsClick \<in> set (List.map_filter item_click (advanced_options_submenu env c))
       \<longleftrightarrow> is_macOS (platform env)"
    by (simp add: advanced_options_submenu_def option_checkbox_def
        checkbox_def action_item_def role_item_def separator_def)
  have app: "setApplicationMenu env c
       = (if is_macOS (platform env) then app_name_menu env # mainMenuTemplate env c
          else mainMenuTemplate env c)"
    by (simp add: setApplicationMenu_def is_macOS_def)
  have about: "has_role_child ''about'' (app_name_menu env)"
    by (simp add: has_role_child_def app_name_menu_def submenu_item_def role_item_def
       )
  have main: "\<not> (\<exists>m \<in> set (mainMenuTemplate env c). has_role_child ''about'' m)"
    by (simp add: mainMenuTemplate_def has_role_child_def submenu_item_def
        plugins_submenu_roles options_submenu_roles)
       (simp add: role_item_def action_item_def separator_def)
  have iff: "(\<exists>m \<in> set (setApplicationMenu env c). has_role_child ''about'' m)
       \<longleftrightarrow> is_macOS (platform env)"
    using main about by (auto simp: app)
  show ?thesis
    using mainMenuTemplate_options [of env c] options_submenu_parts(2) [of env c]
      hide login dev dev_role dev_click app about iff
    by blast
qed

theorem platform_conditional_items_witness:
  "List.map_filter item_label (options_submenu menu_env_example config_example)
     = [''Auto-update'', ''Resume last song when app starts'', ''Starting page'', ''Visual Tweaks'',
        ''Single instance lock'', ''Always on top'', ''Hide menu'', ''Tray'', ''Advanced options'']
   \<and> List.map_filter item_label
        (options_submenu (menu_env_example\<lparr> platform := ''darwin'' \<rparr>) config_example)
     = [''Auto-update'', ''Resume last song when app starts'', ''Starting page'', ''Visual Tweaks'',
        ''Single instance lock'', ''Always on top'', ''Start at login'', ''Tray'', ''Advanced options'']
   \<and> length (setApplicationMenu menu_env_example config_example) = 4
   \<and> length (setApplicationMenu (menu_env_example\<lparr> platform := ''darwin'' \<rparr>) config_example) = 5"
  using platform_conditional_items [of menu_env_example config_example]
    platform_conditional_items [of "menu_env_example\<lparr> platform := ''darwin'' \<rparr>" config_example]
  by (simp add: menu_env_example_def options_submenu_def map_filter_append
      option_checkbox_def checkbox_def submenu_item_def separator_def is_windows_def is_linux_def
      is_macOS_def mainMenuTemplate_def)

end
